theory Spec2Isabelle
  imports Complex_Main "HOL-Library.Word"
begin

section \<open>Data model of \<open>main.go\<close>\<close>

text \<open>
  \<open>PaymentMethod\<close> and \<open>TransactionState\<close> are Go string types: a field of either type
  can hold any string, and the named constants are three particular strings each.
\<close>

type_synonym PaymentMethod = string

definition CREDIT :: PaymentMethod where "CREDIT = ''C''"
definition DEBIT :: PaymentMethod where "DEBIT = ''D''"
definition CASH :: PaymentMethod where "CASH = ''S''"

type_synonym TransactionState = string

definition OPEN :: TransactionState where "OPEN = ''O''"
definition EXPIRED :: TransactionState where "EXPIRED = ''E''"
definition CLOSED :: TransactionState where "CLOSED = ''C''"

text \<open>
  The three implementations of the interface \<open>TransactionHandler\<close>. They are empty
  structs, so a handler carries nothing but which of the three it is. The interface field
  of a transaction is \<open>None\<close> while it is nil.
\<close>

datatype TransactionHandler =
  CreditTransactionHandler | CashTransactionHandler | DebitTransactionHandler

text \<open>
  Accounts live in a store and are referred to by address, since a transaction holds
  \<open>*Account\<close> pointers and several transactions may share an account. A pointer is
  \<open>None\<close> when nil.
\<close>

type_synonym addr = nat

record Transaction =
  id_txn :: "8 word"
  amount :: "32 word"
  sender :: "addr option"
  recipient :: "addr option"
  state :: TransactionState
  paymentMethod :: PaymentMethod
  transactionHandler :: "TransactionHandler option"

record Account =
  id_acct :: "8 word"
  name :: string
  balance :: "32 word"
  transactions :: "Transaction list"

type_synonym store = "addr \<rightharpoonup> Account"

text \<open>
  Every error of the program is made by \<open>errors.New\<close> with one of five fixed messages;
  an error value is identified with its message.
\<close>

datatype error =
  HandlerNotFound | SelfTransaction | AlreadyClosed | Expired | InsufficientBalance

fun Error :: "error \<Rightarrow> string" where
  "Error HandlerNotFound = ''Could find a valid handler''"
| "Error SelfTransaction = ''One account can't make a transaction to itself''"
| "Error AlreadyClosed = ''Can't pay an already closed transaction''"
| "Error Expired = ''Transaction expired''"
| "Error InsufficientBalance = ''Sender doesn't have enough balance to make transaction''"

text \<open>
  A run-time panic of the Go program: the only one this code can raise is the
  dereference of a nil pointer or the method call on a nil interface.
\<close>

datatype panic = NilDereference

text \<open>
  Reading through an account pointer. Go has no dangling pointers; an address outside the
  store is treated like nil.
\<close>

definition deref :: "store \<Rightarrow> addr option \<Rightarrow> Account option" where
  "deref h p = (case p of None \<Rightarrow> None | Some a \<Rightarrow> h a)"

section \<open>The \<open>float64\<close> arithmetic of the fee computation\<close>

text \<open>
  The credit and cash handlers compute \<open>uint32(float64(t.amount) * 1.10)\<close> and
  \<open>uint32(float64(t.amount) * 0.90)\<close>. Only non-negative finite doubles occur, so a
  double is represented exactly as a significand and a binary exponent: \<open>F64 m e\<close> stands
  for \<open>m * 2 ^ e\<close>.
\<close>

datatype float64 = F64 (significand: nat) (exponent: int)

definition f64_value :: "float64 \<Rightarrow> rat" where
  "f64_value x =
     (if 0 \<le> exponent x then of_nat (significand x) * 2 ^ nat (exponent x)
      else of_nat (significand x) / 2 ^ nat (- exponent x))"

text \<open>The number of bits of a natural number (\<open>bits.Len\<close>).\<close>

fun bit_length :: "nat \<Rightarrow> nat" where
  "bit_length n = (if n = 0 then 0 else Suc (bit_length (n div 2)))"

declare bit_length.simps [simp del]

text \<open>
  IEEE 754 rounding to nearest, ties to even, of the exact value \<open>m * 2 ^ e\<close> to a
  significand of 53 bits. Exponent overflow and underflow are left out: the products
  below lie between \<open>0.9\<close> and \<open>2 ^ 33\<close>.
\<close>

definition round_nearest_even :: "nat \<Rightarrow> nat \<Rightarrow> nat" where
  "round_nearest_even m s =
     (let q = m div 2 ^ s; r = m mod 2 ^ s; half = 2 ^ (s - 1)
      in if half < r \<or> (r = half \<and> odd q) then q + 1 else q)"

definition f64_round :: "nat \<Rightarrow> int \<Rightarrow> float64" where
  "f64_round m e =
     (if bit_length m \<le> 53 then F64 m e
      else let s = bit_length m - 53 in F64 (round_nearest_even m s) (e + int s))"

definition f64_mul :: "float64 \<Rightarrow> float64 \<Rightarrow> float64" where
  "f64_mul x y = f64_round (significand x * significand y) (exponent x + exponent y)"

text \<open>\<open>float64(t.amount)\<close>: every \<open>uint32\<close> is a double.\<close>

definition float64_of_uint32 :: "32 word \<Rightarrow> float64" where
  "float64_of_uint32 a = F64 (unat a) 0"

text \<open>
  The constants \<open>1.10\<close> and \<open>0.90\<close> as the compiler stores them: the doubles nearest to
  \<open>11/10\<close> and \<open>9/10\<close>, with bit patterns \<open>0x3FF199999999999A\<close> and
  \<open>0x3FECCCCCCCCCCCCD\<close>.
\<close>

definition f64_1_10 :: float64 where
  "f64_1_10 = F64 4953959590107546 (- 52)"

definition f64_0_90 :: float64 where
  "f64_0_90 = F64 8106479329266893 (- 53)"

text \<open>The integer part of a double (truncation toward zero).\<close>

definition f64_trunc :: "float64 \<Rightarrow> nat" where
  "f64_trunc x =
     (if 0 \<le> exponent x then significand x * 2 ^ nat (exponent x)
      else significand x div 2 ^ nat (- exponent x))"

text \<open>
  \<open>uint32(x)\<close> for a double \<open>x\<close>. The Go specification fixes the result only when the
  truncated value fits the target type; otherwise "the conversion succeeds but the result
  value is implementation-dependent". That part is the parameter \<open>oor\<close>, a function of the
  double converted.
\<close>

definition uint32_of_float64 :: "(float64 \<Rightarrow> 32 word) \<Rightarrow> float64 \<Rightarrow> 32 word" where
  "uint32_of_float64 oor x =
     (if f64_trunc x < 2 ^ 32 then word_of_nat (f64_trunc x) else oor x)"

text \<open>
  What the 64-bit targets of the Go compiler do out of range: they convert to a 64-bit
  integer and keep the low 32 bits.
\<close>

definition oor_wide :: "float64 \<Rightarrow> 32 word" where
  "oor_wide x = word_of_nat (f64_trunc x)"

section \<open>The settlement strategies\<close>

text \<open>The two fee expressions of the source, \<open>uint32(float64(t.amount) * 1.10)\<close> and
  \<open>uint32(float64(t.amount) * 0.90)\<close>.\<close>

definition credit_amount :: "(float64 \<Rightarrow> 32 word) \<Rightarrow> 32 word \<Rightarrow> 32 word" where
  "credit_amount oor a = uint32_of_float64 oor (f64_mul (float64_of_uint32 a) f64_1_10)"

definition cash_amount :: "(float64 \<Rightarrow> 32 word) \<Rightarrow> 32 word \<Rightarrow> 32 word" where
  "cash_amount oor a = uint32_of_float64 oor (f64_mul (float64_of_uint32 a) f64_0_90)"

text \<open>
  A compound assignment through an account pointer, \<open>p.balance op= v\<close>: the balance is read
  from the store as it is at that moment and written back.
\<close>

definition update_balance :: "store \<Rightarrow> addr option \<Rightarrow> (32 word \<Rightarrow> 32 word) \<Rightarrow> store" where
  "update_balance h p f =
     (case p of None \<Rightarrow> h
      | Some a \<Rightarrow> (case h a of None \<Rightarrow> h
                  | Some acc \<Rightarrow> h(a \<mapsto> acc\<lparr>balance := f (balance acc)\<rparr>)))"

text \<open>
  A call of \<open>pay\<close> either panics or returns: the error (\<open>None\<close> for nil), the transaction
  and the account store as the call leaves them.
\<close>

type_synonym outcome = "panic + (error option \<times> Transaction \<times> store)"

definition pay_Credit :: "(float64 \<Rightarrow> 32 word) \<Rightarrow> Transaction \<Rightarrow> store \<Rightarrow> outcome" where
  "pay_Credit oor t h =
     (case deref h (sender t) of None \<Rightarrow> Inl NilDereference
      | Some s \<Rightarrow>
     (case deref h (recipient t) of None \<Rightarrow> Inl NilDereference
      | Some r \<Rightarrow>
        if id_acct s = id_acct r then Inr (Some SelfTransaction, t, h)
        else if state t = CLOSED then Inr (Some AlreadyClosed, t, h)
        else if state t = EXPIRED then Inr (Some Expired, t, h)
        else if balance s < credit_amount oor (amount t)
          then Inr (Some InsufficientBalance, t, h)
        else
          let h1 = update_balance h (sender t) (\<lambda>b. b - credit_amount oor (amount t));
              h2 = update_balance h1 (recipient t) (\<lambda>b. b + credit_amount oor (amount t))
          in Inr (None, t\<lparr>state := CLOSED\<rparr>, h2)))"

definition pay_Cash :: "(float64 \<Rightarrow> 32 word) \<Rightarrow> Transaction \<Rightarrow> store \<Rightarrow> outcome" where
  "pay_Cash oor t h =
     (case deref h (sender t) of None \<Rightarrow> Inl NilDereference
      | Some s \<Rightarrow>
     (case deref h (recipient t) of None \<Rightarrow> Inl NilDereference
      | Some r \<Rightarrow>
        if id_acct s = id_acct r then Inr (Some SelfTransaction, t, h)
        else if state t = CLOSED then Inr (Some AlreadyClosed, t, h)
        else if state t = EXPIRED then Inr (Some Expired, t, h)
        else if balance s < cash_amount oor (amount t)
          then Inr (Some InsufficientBalance, t, h)
        else
          let h1 = update_balance h (sender t) (\<lambda>b. b - cash_amount oor (amount t));
              h2 = update_balance h1 (recipient t) (\<lambda>b. b + cash_amount oor (amount t))
          in Inr (None, t\<lparr>state := CLOSED\<rparr>, h2)))"

definition pay_Debit :: "Transaction \<Rightarrow> store \<Rightarrow> outcome" where
  "pay_Debit t h =
     (case deref h (sender t) of None \<Rightarrow> Inl NilDereference
      | Some s \<Rightarrow>
     (case deref h (recipient t) of None \<Rightarrow> Inl NilDereference
      | Some r \<Rightarrow>
        if id_acct s = id_acct r then Inr (Some SelfTransaction, t, h)
        else if state t = CLOSED then Inr (Some AlreadyClosed, t, h)
        else if state t = EXPIRED then Inr (Some Expired, t, h)
        else if balance s < amount t
          then Inr (Some InsufficientBalance, t, h)
        else
          let h1 = update_balance h (sender t) (\<lambda>b. b - amount t);
              h2 = update_balance h1 (recipient t) (\<lambda>b. b + amount t)
          in Inr (None, t\<lparr>state := CLOSED\<rparr>, h2)))"

text \<open>The dynamic dispatch of \<open>th.pay(t)\<close> on the handler's type.\<close>

fun pay :: "(float64 \<Rightarrow> 32 word) \<Rightarrow> TransactionHandler \<Rightarrow> Transaction \<Rightarrow> store \<Rightarrow> outcome" where
  "pay oor CreditTransactionHandler t h = pay_Credit oor t h"
| "pay oor CashTransactionHandler t h = pay_Cash oor t h"
| "pay oor DebitTransactionHandler t h = pay_Debit t h"

section \<open>Payment and handler selection\<close>

text \<open>\<open>makePayment\<close> calls \<open>pay\<close> on the interface field; on a nil interface the call
  panics.\<close>

definition makePayment :: "(float64 \<Rightarrow> 32 word) \<Rightarrow> Transaction \<Rightarrow> store \<Rightarrow> outcome" where
  "makePayment oor t h =
     (case transactionHandler t of None \<Rightarrow> Inl NilDereference
      | Some th \<Rightarrow>
        (case pay oor th t h of Inl p \<Rightarrow> Inl p
         | Inr (err, t', h') \<Rightarrow>
             if err \<noteq> None then Inr (err, t', h') else Inr (None, t', h')))"

text \<open>\<open>selectTransactionHandler\<close> never panics; it returns its error, the transaction and
  the store.\<close>

definition selectTransactionHandler ::
  "Transaction \<Rightarrow> store \<Rightarrow> error option \<times> Transaction \<times> store" where
  "selectTransactionHandler t h =
     (if paymentMethod t = CREDIT
        then (None, t\<lparr>transactionHandler := Some CreditTransactionHandler\<rparr>, h)
      else if paymentMethod t = CASH
        then (None, t\<lparr>transactionHandler := Some CashTransactionHandler\<rparr>, h)
      else if paymentMethod t = DEBIT
        then (None, t\<lparr>transactionHandler := Some DebitTransactionHandler\<rparr>, h)
      else (Some HandlerNotFound, t, h))"

text \<open>
  The amount a handler moves, as the source computes it: the value compared with the
  sender's balance, subtracted from it and added to the recipient's.
\<close>

fun effective :: "(float64 \<Rightarrow> 32 word) \<Rightarrow> TransactionHandler \<Rightarrow> 32 word \<Rightarrow> 32 word" where
  "effective oor CreditTransactionHandler a = credit_amount oor a"
| "effective oor CashTransactionHandler a = cash_amount oor a"
| "effective oor DebitTransactionHandler a = a"

text \<open>The accounts and the transaction of \<open>main\<close>.\<close>

definition gustavo :: Account where
  "gustavo = \<lparr>id_acct = 1, name = ''My first account'', balance = 150, transactions = []\<rparr>"

definition pedro :: Account where
  "pedro = \<lparr>id_acct = 2, name = ''Online store'', balance = 5, transactions = []\<rparr>"

definition main_store :: store where
  "main_store = [0 \<mapsto> gustavo, 1 \<mapsto> pedro]"

definition main_transaction :: Transaction where
  "main_transaction =
     \<lparr>id_txn = 1, amount = 55, sender = Some 0, recipient = Some 1, state = OPEN,
      paymentMethod = CASH, transactionHandler = None\<rparr>"

section \<open>Definitions for stating the properties\<close>

text \<open>
  The body that the three \<open>pay\<close> methods have in common, with the amount moved as a
  parameter \<open>e\<close>: the four checks in their order, then the two balance updates and the
  change of state.
\<close>

definition settle :: "32 word \<Rightarrow> Transaction \<Rightarrow> store \<Rightarrow> outcome" where
  "settle e t h =
     (case deref h (sender t) of None \<Rightarrow> Inl NilDereference
      | Some s \<Rightarrow>
     (case deref h (recipient t) of None \<Rightarrow> Inl NilDereference
      | Some r \<Rightarrow>
        if id_acct s = id_acct r then Inr (Some SelfTransaction, t, h)
        else if state t = CLOSED then Inr (Some AlreadyClosed, t, h)
        else if state t = EXPIRED then Inr (Some Expired, t, h)
        else if balance s < e then Inr (Some InsufficientBalance, t, h)
        else Inr (None, t\<lparr>state := CLOSED\<rparr>,
                  update_balance (update_balance h (sender t) (\<lambda>b. b - e))
                    (recipient t) (\<lambda>b. b + e))))"

text \<open>The balance a caller reads through an account pointer.\<close>

definition balance_at :: "store \<Rightarrow> addr option \<Rightarrow> 32 word option" where
  "balance_at h p = map_option balance (deref h p)"

text \<open>
  A caller in the manner of \<open>main\<close>: it owns some transactions and the accounts, calls
  \<open>selectTransactionHandler\<close> and \<open>makePayment\<close> on them in any order, and goes on after a
  returned error (which \<open>main\<close> only logs). A panic ends the run; a call on a transaction
  that does not exist is a call on a nil pointer.
\<close>

datatype operation = SelectHandler nat | MakePayment nat

record ledger =
  txns :: "Transaction list"
  accts :: store

fun step :: "(float64 \<Rightarrow> 32 word) \<Rightarrow> operation \<Rightarrow> ledger \<Rightarrow> panic + ledger" where
  "step oor (SelectHandler k) l =
     (if k < length (txns l)
      then (case selectTransactionHandler (txns l ! k) (accts l) of
              (err, t', h') \<Rightarrow> Inr \<lparr>txns = (txns l)[k := t'], accts = h'\<rparr>)
      else Inl NilDereference)"
| "step oor (MakePayment k) l =
     (if k < length (txns l)
      then (case makePayment oor (txns l ! k) (accts l) of
              Inl p \<Rightarrow> Inl p
            | Inr (err, t', h') \<Rightarrow> Inr \<lparr>txns = (txns l)[k := t'], accts = h'\<rparr>)
      else Inl NilDereference)"

fun run :: "(float64 \<Rightarrow> 32 word) \<Rightarrow> operation list \<Rightarrow> ledger \<Rightarrow> panic + ledger" where
  "run oor [] l = Inr l"
| "run oor (x # xs) l = (case step oor x l of Inl p \<Rightarrow> Inl p | Inr l' \<Rightarrow> run oor xs l')"

text \<open>
  \<open>debit_exact\<close>: if the payment of \<open>t\<close> in store \<open>h\<close> settles, the sender's new balance
  is the old one minus the amount moved, computed in the integers (so the subtraction did
  not wrap around below zero). \<open>debits_exact\<close> says so of every payment of a run.
\<close>

definition debit_exact :: "(float64 \<Rightarrow> 32 word) \<Rightarrow> Transaction \<Rightarrow> store \<Rightarrow> bool" where
  "debit_exact oor t h =
     (case makePayment oor t h of
        Inl p \<Rightarrow> True
      | Inr (err, t', h') \<Rightarrow>
          (case err of
             Some e \<Rightarrow> True
           | None \<Rightarrow>
              (case (transactionHandler t, balance_at h (sender t), balance_at h' (sender t)) of
                 (Some th, Some b, Some b') \<Rightarrow>
                    uint b' = uint b - uint (effective oor th (amount t))
               | _ \<Rightarrow> False)))"

fun debits_exact :: "(float64 \<Rightarrow> 32 word) \<Rightarrow> operation list \<Rightarrow> ledger \<Rightarrow> bool" where
  "debits_exact oor [] l = True"
| "debits_exact oor (x # xs) l =
     ((case x of
         SelectHandler k \<Rightarrow> True
       | MakePayment k \<Rightarrow>
           (if k < length (txns l) then debit_exact oor (txns l ! k) (accts l) else True))
      \<and> (case step oor x l of Inl p \<Rightarrow> True | Inr l' \<Rightarrow> debits_exact oor xs l'))"

text \<open>
  What the caller can read after a call on transaction \<open>t\<close>: the returned error, the
  transaction's state and the balances of its sender and recipient.
\<close>

definition observe ::
  "Transaction \<Rightarrow> outcome
     \<Rightarrow> panic + (error option \<times> TransactionState \<times> 32 word option \<times> 32 word option)" where
  "observe t out =
     (case out of Inl p \<Rightarrow> Inl p
      | Inr (err, t', h') \<Rightarrow>
          Inr (err, state t', balance_at h' (sender t), balance_at h' (recipient t)))"

text \<open>Concrete accounts and transactions for the examples below.\<close>

definition acct :: "8 word \<Rightarrow> 32 word \<Rightarrow> Account" where
  "acct i b = \<lparr>id_acct = i, name = [], balance = b, transactions = []\<rparr>"

definition txn ::
  "32 word \<Rightarrow> addr \<Rightarrow> addr \<Rightarrow> TransactionState \<Rightarrow> PaymentMethod
     \<Rightarrow> TransactionHandler option \<Rightarrow> Transaction" where
  "txn a s r st m th =
     \<lparr>id_txn = 1, amount = a, sender = Some s, recipient = Some r, state = st,
      paymentMethod = m, transactionHandler = th\<rparr>"

section \<open>The fee arithmetic\<close>

text \<open>
  The two constants are doubles (53-bit significands) within half a unit in the last place
  of \<open>11/10\<close> and \<open>9/10\<close>, hence the nearest ones.
\<close>

lemma f64_1_10_nearest:
  "2 ^ 52 \<le> significand f64_1_10 \<and> significand f64_1_10 < 2 ^ 53
   \<and> \<bar>f64_value f64_1_10 - 11 / 10\<bar> < 1 / 2 ^ 53"
  by (simp add: f64_1_10_def f64_value_def)

lemma f64_0_90_nearest:
  "2 ^ 52 \<le> significand f64_0_90 \<and> significand f64_0_90 < 2 ^ 53
   \<and> \<bar>f64_value f64_0_90 - 9 / 10\<bar> < 1 / 2 ^ 54"
  by (simp add: f64_0_90_def f64_value_def)

text \<open>Truncation is the floor of the value.\<close>

lemma f64_trunc_floor: "int (f64_trunc x) = \<lfloor>f64_value x\<rfloor>"
proof (cases "0 \<le> exponent x")
  case True
  have "\<lfloor>(of_nat (significand x * 2 ^ nat (exponent x)) :: rat)\<rfloor>
      = int (significand x * 2 ^ nat (exponent x))"
    by (rule floor_of_nat)
  with True show ?thesis by (simp add: f64_trunc_def f64_value_def)
next
  case False
  have "\<lfloor>(of_nat (significand x) :: rat) / of_nat (2 ^ nat (- exponent x))\<rfloor>
      = int (significand x div 2 ^ nat (- exponent x))"
    by (rule floor_divide_of_nat_eq)
  with False show ?thesis by (simp add: f64_trunc_def f64_value_def)
qed

text \<open>A number below \<open>2 ^ k\<close> has at most \<open>k\<close> bits.\<close>

lemma bit_length_le: "n < 2 ^ k \<Longrightarrow> bit_length n \<le> k"
proof (induction n arbitrary: k rule: bit_length.induct)
  case (1 n)
  show ?case
  proof (cases "n = 0")
    case True
    then show ?thesis by (simp add: bit_length.simps)
  next
    case False
    with "1.prems" obtain j where k: "k = Suc j" by (cases k) auto
    from "1.prems" k have "n div 2 < 2 ^ j" by simp
    from "1.IH" [OF False this] False k show ?thesis
      by (subst bit_length.simps) simp
  qed
qed

text \<open>Rounding the quotient by \<open>2 ^ s\<close> moves it up by one at most.\<close>

lemma round_nearest_even_bounds:
  "m div 2 ^ s \<le> round_nearest_even m s \<and> round_nearest_even m s \<le> m div 2 ^ s + 1"
  by (simp add: round_nearest_even_def Let_def)

text \<open>
  The arithmetic core: if \<open>c / 2 ^ e\<close> exceeds \<open>p / 10\<close> by the tiny \<open>d / (10 * 2 ^ e)\<close>,
  then the product \<open>a * c\<close>, cut to a multiple of \<open>2 ^ s\<close> or to the next one, still
  has the integer part \<open>p * a div 10\<close>.
\<close>

lemma trunc_scaled:
  fixes a c p d e :: nat
  assumes c: "10 * c = p * 2 ^ e + d"
    and small: "a * d + 10 * 2 ^ s < 2 ^ e"
    and s: "s \<le> e"
    and q: "(a * c) div 2 ^ s \<le> q" "q \<le> (a * c) div 2 ^ s + 1"
  shows "q div 2 ^ (e - s) = (p * a) div 10"
proof -
  define k where "k = (p * a) div 10"
  define r where "r = (p * a) mod 10"
  have pa: "p * a = 10 * k + r" and r: "r < 10"
    by (simp_all add: k_def r_def)
  have "10 * (a * c) = a * (10 * c)" by simp
  also have "\<dots> = a * (p * 2 ^ e + d)" by (simp only: c)
  also have "\<dots> = (p * a) * 2 ^ e + a * d" by (simp add: algebra_simps)
  also have "\<dots> = (10 * k + r) * 2 ^ e + a * d" by (simp only: pa)
  also have "\<dots> = 10 * (k * 2 ^ e) + (r * 2 ^ e + a * d)" by (simp add: algebra_simps)
  finally have P: "10 * (a * c) = 10 * (k * 2 ^ e) + (r * 2 ^ e + a * d)" .
  have e: "(2::nat) ^ e = 2 ^ (e - s) * 2 ^ s"
    using s by (simp flip: power_add)
  have lo: "k * 2 ^ e \<le> a * c" using P by arith
  have hi: "a * c + 2 ^ s < (k + 1) * 2 ^ e"
  proof -
    define E :: nat where "E = 2 ^ e"
    define R where "R = r * E"
    define K where "K = k * E"
    have "R \<le> 9 * E" using r by (simp add: R_def)
    moreover have "10 * (a * c) = 10 * K + (R + a * d)"
      using P by (simp add: R_def K_def E_def)
    moreover have "a * d + 10 * 2 ^ s < E" using small by (simp add: E_def)
    ultimately have "a * c + 2 ^ s < K + E" by linarith
    then show ?thesis by (simp add: K_def E_def)
  qed
  have "k * 2 ^ (e - s) * 2 ^ s \<le> a * c" using lo e by (simp add: mult.assoc)
  then have "k * 2 ^ (e - s) \<le> (a * c) div 2 ^ s"
    by (simp add: less_eq_div_iff_mult_less_eq)
  with q have l: "2 ^ (e - s) * k \<le> q" by (simp add: mult.commute)
  have "q * 2 ^ s \<le> ((a * c) div 2 ^ s) * 2 ^ s + 2 ^ s"
    using q(2) by (metis add_mult_distrib mult_le_mono1 nat_mult_1)
  also have "\<dots> \<le> a * c + 2 ^ s" by simp
  also have "\<dots> < (k + 1) * 2 ^ (e - s) * 2 ^ s" using hi e by (simp add: algebra_simps)
  finally have "q < (k + 1) * 2 ^ (e - s)" by simp
  then have u: "q < 2 ^ (e - s) * Suc k" by (simp add: mult.commute)
  from l u have "q div 2 ^ (e - s) = k" by (rule div_nat_eqI)
  then show ?thesis by (simp add: k_def)
qed

text \<open>
  The integer part of the double product of a \<open>uint32\<close> and such a constant. The
  product has fewer than 86 bits, so at most 32 of them are rounded away.
\<close>

lemma f64_trunc_mul_const:
  fixes a :: "32 word" and c p d e :: nat
  assumes c: "10 * c = p * 2 ^ e + d"
    and c53: "c < 2 ^ 53"
    and e: "32 < e"
    and d: "2 ^ 32 * d + 10 * 2 ^ 32 < (2::nat) ^ e"
  shows "f64_trunc (f64_mul (float64_of_uint32 a) (F64 c (- int e))) = (p * unat a) div 10"
proof -
  define n where "n = unat a"
  have n: "n < 2 ^ 32" unfolding n_def using unsigned_less [of a] by simp
  have nd: "n * d \<le> 2 ^ 32 * d" using n by simp
  show ?thesis
  proof (cases "bit_length (n * c) \<le> 53")
    case True
    have "(2::nat) ^ 0 \<le> 2 ^ 32" by simp
    with nd d have "n * d + 10 * 2 ^ 0 < 2 ^ e" by linarith
    then have "(n * c) div 2 ^ (e - 0) = (p * n) div 10"
      by (rule trunc_scaled [OF c]) simp_all
    with True e show ?thesis
      by (simp add: f64_mul_def float64_of_uint32_def f64_round_def f64_trunc_def
          flip: n_def)
  next
    case False
    define s where "s = bit_length (n * c) - 53"
    have "n * c < 2 ^ 32 * 2 ^ 53"
      using n c53 by (intro mult_strict_mono) simp_all
    then have "n * c < 2 ^ 85" by simp
    then have "bit_length (n * c) \<le> 85" by (rule bit_length_le)
    then have s32: "s \<le> 32" by (simp add: s_def)
    then have "(2::nat) ^ s \<le> 2 ^ 32" by (intro power_increasing) simp_all
    with nd d have small: "n * d + 10 * 2 ^ s < 2 ^ e" by linarith
    have se: "s \<le> e" using s32 e by simp
    have "round_nearest_even (n * c) s div 2 ^ (e - s) = (p * n) div 10"
      using round_nearest_even_bounds [of "n * c" s]
      by (intro trunc_scaled [OF c small se]) simp_all
    moreover have "\<not> 0 \<le> int s - int e" using s32 e by simp
    moreover have "nat (int e - int s) = e - s" using se by simp
    ultimately show ?thesis using False
      by (simp add: f64_mul_def float64_of_uint32_def f64_round_def f64_trunc_def Let_def
          flip: n_def s_def)
  qed
qed

lemma ten_times_1_10: "10 * 4953959590107546 = 11 * 2 ^ 52 + (4::nat)"
  by simp

lemma ten_times_0_90: "10 * 8106479329266893 = 9 * 2 ^ 53 + (2::nat)"
  by simp

lemma f64_trunc_credit:
  "f64_trunc (f64_mul (float64_of_uint32 a) f64_1_10) = (11 * unat a) div 10"
  unfolding f64_1_10_def
  using f64_trunc_mul_const [OF ten_times_1_10, of a] by simp

lemma f64_trunc_cash:
  "f64_trunc (f64_mul (float64_of_uint32 a) f64_0_90) = (9 * unat a) div 10"
  unfolding f64_0_90_def
  using f64_trunc_mul_const [OF ten_times_0_90, of a] by simp

lemma unat_cash_amount: "unat (cash_amount oor a) = (9 * unat a) div 10"
proof -
  have "(9 * unat a) div 10 \<le> unat a" by simp
  also have "\<dots> < 2 ^ 32" using unsigned_less [of a] by simp
  finally have "(9 * unat a) div 10 < 2 ^ 32" .
  then show ?thesis
    by (simp add: cash_amount_def uint32_of_float64_def f64_trunc_cash unat_of_nat)
qed

lemma unat_credit_amount:
  "(11 * unat a) div 10 < 2 ^ 32 \<Longrightarrow> unat (credit_amount oor a) = (11 * unat a) div 10"
  by (simp add: credit_amount_def uint32_of_float64_def f64_trunc_credit unat_of_nat)

lemma credit_amount_out_of_range:
  "2 ^ 32 \<le> (11 * unat a) div 10 \<Longrightarrow>
     credit_amount oor a = oor (f64_mul (float64_of_uint32 a) f64_1_10)"
  by (simp add: credit_amount_def uint32_of_float64_def f64_trunc_credit)

lemma floor_tenths: "\<lfloor>(of_nat n :: rat) * (of_nat p / 10)\<rfloor> = int ((p * n) div 10)"
proof -
  have "(of_nat n :: rat) * (of_nat p / 10) = of_nat (p * n) / of_nat 10"
    by simp
  then show ?thesis
    by (simp only: floor_divide_of_nat_eq)
qed

lemma credit_in_range_iff: "(11 * unat (a :: 32 word)) div 10 < 2 ^ 32 \<longleftrightarrow> unat a \<le> 3904515723"
proof -
  have "(11 * unat a) div 10 < 2 ^ 32 \<longleftrightarrow> 11 * unat a < 42949672960"
    by (simp add: div_less_iff_less_mult)
  also have "\<dots> \<longleftrightarrow> unat a \<le> 3904515723"
    by linarith
  finally show ?thesis .
qed

lemma pay_settle: "pay oor th t h = settle (effective oor th (amount t)) t h"
  by (cases th)
    (auto simp add: pay_Credit_def pay_Cash_def pay_Debit_def settle_def Let_def
      split: option.splits)


lemmas fee_eval =
  credit_amount_def cash_amount_def uint32_of_float64_def oor_wide_def f64_mul_def
  float64_of_uint32_def f64_1_10_def f64_0_90_def f64_round_def f64_trunc_def
  round_nearest_even_def bit_length.simps Let_def

text \<open>
  Claim C2, as the code has it. The amount a handler compares with the sender's balance,
  subtracts from it and adds to the recipient's balance is one and the same value
  \<open>effective\<close> (first conjunct). For the debit handler it is the requested amount; for the
  cash handler it is \<open>floor (amount * 9/10)\<close> in exact rational arithmetic, for every
  amount; for the credit handler it is \<open>floor (amount * 11/10)\<close> for every amount up to
  3904515723. For a larger amount \<open>floor (amount * 11/10)\<close> is \<open>2 ^ 32\<close> or more, the
  conversion to \<open>uint32\<close> is out of range, and the credit amount is whatever the
  implementation makes of it.
\<close>

theorem effective_amount:
  "pay oor th t h = settle (effective oor th (amount t)) t h
   \<and> effective oor DebitTransactionHandler a = a
   \<and> int (unat (effective oor CashTransactionHandler a))
       = \<lfloor>(of_nat (unat a) :: rat) * (9 / 10)\<rfloor>
   \<and> (unat a \<le> 3904515723 \<longrightarrow>
        int (unat (effective oor CreditTransactionHandler a))
          = \<lfloor>(of_nat (unat a) :: rat) * (11 / 10)\<rfloor>)
   \<and> (3904515723 < unat a \<longrightarrow>
        2 ^ 32 \<le> \<lfloor>(of_nat (unat a) :: rat) * (11 / 10)\<rfloor>
        \<and> effective oor CreditTransactionHandler a
            = oor (f64_mul (float64_of_uint32 a) f64_1_10))"
proof -
  have nine: "\<lfloor>(of_nat (unat a) :: rat) * (9 / 10)\<rfloor> = int ((9 * unat a) div 10)"
    using floor_tenths [of "unat a" 9] by simp
  have eleven: "\<lfloor>(of_nat (unat a) :: rat) * (11 / 10)\<rfloor> = int ((11 * unat a) div 10)"
    using floor_tenths [of "unat a" 11] by simp
  have debit: "effective oor DebitTransactionHandler a = a"
    by simp
  have cash: "int (unat (effective oor CashTransactionHandler a))
       = \<lfloor>(of_nat (unat a) :: rat) * (9 / 10)\<rfloor>"
    by (simp only: nine effective.simps unat_cash_amount)
  have credit: "int (unat (effective oor CreditTransactionHandler a))
          = \<lfloor>(of_nat (unat a) :: rat) * (11 / 10)\<rfloor>" if "unat a \<le> 3904515723"
  proof -
    from that have "(11 * unat a) div 10 < 2 ^ 32"
      by (simp only: credit_in_range_iff)
    then have "unat (credit_amount oor a) = (11 * unat a) div 10"
      by (rule unat_credit_amount)
    then show ?thesis
      by (simp only: eleven effective.simps)
  qed
  have over: "2 ^ 32 \<le> \<lfloor>(of_nat (unat a) :: rat) * (11 / 10)\<rfloor>
      \<and> effective oor CreditTransactionHandler a
            = oor (f64_mul (float64_of_uint32 a) f64_1_10)" if "3904515723 < unat a"
  proof -
    from that have "\<not> (11 * unat a) div 10 < 2 ^ 32"
      by (simp only: credit_in_range_iff not_le)
    then have big: "2 ^ 32 \<le> (11 * unat a) div 10"
      by (simp only: not_less)
    then have "int (2 ^ 32) \<le> int ((11 * unat a) div 10)"
      by (simp only: of_nat_le_iff)
    then have "2 ^ 32 \<le> \<lfloor>(of_nat (unat a) :: rat) * (11 / 10)\<rfloor>"
      by (simp only: eleven of_nat_power of_nat_numeral)
    moreover have "effective oor CreditTransactionHandler a
            = oor (f64_mul (float64_of_uint32 a) f64_1_10)"
      using credit_amount_out_of_range [OF big] by (simp only: effective.simps)
    ultimately show ?thesis ..
  qed
  from pay_settle [of oor th t h] debit cash credit over show ?thesis
    by blast
qed


theorem effective_amount_witness:
  "unat (55 :: 32 word) \<le> 3904515723
   \<and> effective oor_wide CreditTransactionHandler 55 = 60
   \<and> \<lfloor>(of_nat (unat (55 :: 32 word)) :: rat) * (11 / 10)\<rfloor> = 60
   \<and> effective oor_wide CashTransactionHandler 55 = 49
   \<and> 3904515723 < unat (4000000000 :: 32 word)
   \<and> effective oor_wide CreditTransactionHandler 4000000000
       = oor_wide (f64_mul (float64_of_uint32 4000000000) f64_1_10)"
  using effective_amount [of oor_wide CreditTransactionHandler "txn 0 0 0 [] [] None" Map.empty 55]
    effective_amount [of oor_wide CreditTransactionHandler "txn 0 0 0 [] [] None" Map.empty 4000000000]
  by (simp add: fee_eval)

text \<open>
  Claim C2 as stated fails for a credit amount of 4000000000: \<open>floor (amount * 1.10)\<close> is
  4400000000, which no \<open>uint32\<close> holds; on a 64-bit target the handler moves 105032704.
\<close>

theorem effective_amount_counterexample:
  "effective oor_wide CreditTransactionHandler 4000000000 = 105032704
   \<and> \<lfloor>(of_nat (unat (4000000000 :: 32 word)) :: rat) * (11 / 10)\<rfloor> = 4400000000
   \<and> int (unat (effective oor_wide CreditTransactionHandler 4000000000))
       \<noteq> \<lfloor>(of_nat (unat (4000000000 :: 32 word)) :: rat) * (11 / 10)\<rfloor>"
  by (simp add: fee_eval)

section \<open>The settlement step\<close>

lemma makePayment_settle:
  "makePayment oor t h =
     (case transactionHandler t of None \<Rightarrow> Inl NilDereference
      | Some th \<Rightarrow> settle (effective oor th (amount t)) t h)"
  by (auto simp add: makePayment_def pay_settle split: option.splits sum.splits)

lemma makePayment_bound:
  "transactionHandler t = Some th \<Longrightarrow>
     makePayment oor t h = settle (effective oor th (amount t)) t h"
  by (simp add: makePayment_settle)

text \<open>
  Account identity. The handlers compare ids, not pointers. In a store whose accounts
  have ids of their own, two pointers are to the same account exactly when the ids
  read through them are equal.
\<close>

lemma same_id_same_account:
  assumes unique: "\<And>a b x y. h a = Some x \<Longrightarrow> h b = Some y \<Longrightarrow> id_acct x = id_acct y \<Longrightarrow> a = b"
    and s: "deref h p = Some s" and r: "deref h q = Some r"
  shows "id_acct s = id_acct r \<longleftrightarrow> p = q"
proof
  assume eq: "id_acct s = id_acct r"
  from s obtain a where a: "p = Some a" "h a = Some s"
    by (auto simp add: deref_def split: option.splits)
  from r obtain b where b: "q = Some b" "h b = Some r"
    by (auto simp add: deref_def split: option.splits)
  from unique [OF a(2) b(2) eq] a b show "p = q" by simp
next
  assume "p = q"
  with s r show "id_acct s = id_acct r" by simp
qed

text \<open>With both accounts in place, \<open>settle\<close> is its chain of checks.\<close>

lemma settle_checks:
  assumes "deref h (sender t) = Some s" and "deref h (recipient t) = Some r"
  shows "settle e t h =
     (if id_acct s = id_acct r then Inr (Some SelfTransaction, t, h)
      else if state t = CLOSED then Inr (Some AlreadyClosed, t, h)
      else if state t = EXPIRED then Inr (Some Expired, t, h)
      else if balance s < e then Inr (Some InsufficientBalance, t, h)
      else Inr (None, t\<lparr>state := CLOSED\<rparr>,
                update_balance (update_balance h (sender t) (\<lambda>b. b - e))
                  (recipient t) (\<lambda>b. b + e)))"
  using assms by (simp add: settle_def)

text \<open>A returned error leaves the transaction and the store as they were.\<close>

lemma settle_error:
  "settle e t h = Inr (Some x, t', h') \<Longrightarrow> t' = t \<and> h' = h"
  by (auto simp add: settle_def split: option.splits if_splits)

text \<open>What must have held where \<open>settle\<close> returned no error.\<close>

lemma settle_success:
  assumes "settle e t h = Inr (None, t', h')"
  obtains s r where "deref h (sender t) = Some s" and "deref h (recipient t) = Some r"
    and "id_acct s \<noteq> id_acct r" and "state t \<noteq> CLOSED" and "state t \<noteq> EXPIRED"
    and "e \<le> balance s" and "t' = t\<lparr>state := CLOSED\<rparr>"
    and "h' = update_balance (update_balance h (sender t) (\<lambda>b. b - e))
                  (recipient t) (\<lambda>b. b + e)"
  using assms by (auto simp add: settle_def split: option.splits if_splits)

text \<open>
  The two balance updates on accounts with different ids: these are different objects, so
  each account gets its own update and every other account is untouched.
\<close>

lemma update_both:
  fixes f g :: "32 word \<Rightarrow> 32 word" and a :: addr
  assumes s: "deref h (sender t) = Some s" and r: "deref h (recipient t) = Some r"
    and ids: "id_acct s \<noteq> id_acct r"
  defines "h' \<equiv> update_balance (update_balance h (sender t) f) (recipient t) g"
  shows "deref h' (sender t) = Some (s\<lparr>balance := f (balance s)\<rparr>)"
    and "deref h' (recipient t) = Some (r\<lparr>balance := g (balance r)\<rparr>)"
    and "Some a \<noteq> sender t \<Longrightarrow> Some a \<noteq> recipient t \<Longrightarrow> h' a = h a"
    and "dom h' = dom h"
proof -
  from s obtain sa where sa: "sender t = Some sa" "h sa = Some s"
    by (auto simp add: deref_def split: option.splits)
  from r obtain ra where ra: "recipient t = Some ra" "h ra = Some r"
    by (auto simp add: deref_def split: option.splits)
  from sa ra ids have ne: "sa \<noteq> ra" by auto
  show "deref h' (sender t) = Some (s\<lparr>balance := f (balance s)\<rparr>)"
    using sa ra ne by (simp add: h'_def deref_def update_balance_def)
  show "deref h' (recipient t) = Some (r\<lparr>balance := g (balance r)\<rparr>)"
    using sa ra ne by (simp add: h'_def deref_def update_balance_def)
  show "h' a = h a" if "Some a \<noteq> sender t" "Some a \<noteq> recipient t"
    using that sa ra ne by (auto simp add: h'_def update_balance_def)
  show "dom h' = dom h"
    using sa ra ne by (auto simp add: h'_def update_balance_def)
qed

lemma balance_at_Some: "deref h p = Some a \<Longrightarrow> balance_at h p = Some (balance a)"
  by (simp add: balance_at_def)

text \<open>The integer reading of the two updates.\<close>

lemma uint_debit: "e \<le> b \<Longrightarrow> uint (b - e) = uint b - uint e" for b e :: "32 word"
  by (simp add: uint_sub_lem word_le_def)

lemma uint_credit: "uint (b + e) = (uint b + uint e) mod 2 ^ 32" for b e :: "32 word"
  by (simp add: uint_word_ariths)

lemma uint_credit_cases:
  "uint (b + e) = (if uint b + uint e < 2 ^ 32 then uint b + uint e else uint b + uint e - 2 ^ 32)"
  for b e :: "32 word"
  using uint_plus_if' [of b e] by simp

lemmas scenario_eval =
  makePayment_def pay_Credit_def pay_Cash_def pay_Debit_def selectTransactionHandler_def
  observe_def balance_at_def deref_def update_balance_def txn_def acct_def
  main_transaction_def main_store_def gustavo_def pedro_def
  OPEN_def CLOSED_def EXPIRED_def CREDIT_def CASH_def DEBIT_def

lemma observe_settled:
  assumes th: "transactionHandler t = Some th"
    and s: "deref h (sender t) = Some s" and r: "deref h (recipient t) = Some r"
    and ids: "id_acct s \<noteq> id_acct r"
    and st: "state t \<noteq> CLOSED" "state t \<noteq> EXPIRED"
    and enough: "effective oor th (amount t) \<le> balance s"
  shows "observe t (makePayment oor t h) =
     Inr (None, CLOSED, Some (balance s - effective oor th (amount t)),
          Some (balance r + effective oor th (amount t)))"
proof -
  let ?e = "effective oor th (amount t)"
  let ?h = "update_balance (update_balance h (sender t) (\<lambda>b. b - ?e)) (recipient t) (\<lambda>b. b + ?e)"
  from enough have "\<not> balance s < ?e" by (simp add: not_less)
  with ids st have "makePayment oor t h = Inr (None, t\<lparr>state := CLOSED\<rparr>, ?h)"
    by (simp add: makePayment_bound [OF th] settle_checks [OF s r])
  moreover have "balance_at ?h (sender t) = Some (balance s - ?e)"
    using update_both(1) [OF s r ids] by (simp add: balance_at_def)
  moreover have "balance_at ?h (recipient t) = Some (balance r + ?e)"
    using update_both(2) [OF s r ids] by (simp add: balance_at_def)
  ultimately show ?thesis by (simp add: observe_def)
qed

text \<open>
  Claim C1, as the code has it. For every bound strategy \<open>th\<close> (selection binds the one
  of the payment method) and every transaction in state OPEN whose sender and recipient
  have different ids and whose sender's balance is at least the effective amount,
  \<open>makePayment\<close> returns no error, the state becomes CLOSED, the sender's balance
  decreases by exactly the effective amount, and the recipient's balance becomes its old
  balance plus the effective amount reduced modulo \<open>2 ^ 32\<close>: an increase by exactly the
  effective amount whenever that sum is below \<open>2 ^ 32\<close>.
\<close>

theorem makePayment_settles:
  assumes "transactionHandler t = Some th"
    and "state t = OPEN"
    and "deref h (sender t) = Some s" and "deref h (recipient t) = Some r"
    and "id_acct s \<noteq> id_acct r"
    and "effective oor th (amount t) \<le> balance s"
  shows "observe t (makePayment oor t h) =
           Inr (None, CLOSED, Some (balance s - effective oor th (amount t)),
                Some (balance r + effective oor th (amount t)))
         \<and> uint (balance s - effective oor th (amount t))
             = uint (balance s) - uint (effective oor th (amount t))
         \<and> uint (balance r + effective oor th (amount t))
             = (uint (balance r) + uint (effective oor th (amount t))) mod 2 ^ 32
         \<and> (uint (balance r) + uint (effective oor th (amount t)) < 2 ^ 32 \<longrightarrow>
              uint (balance r + effective oor th (amount t))
                = uint (balance r) + uint (effective oor th (amount t)))"
proof -
  from assms(2) have "state t \<noteq> CLOSED" "state t \<noteq> EXPIRED"
    by (simp_all add: OPEN_def CLOSED_def EXPIRED_def)
  with assms have "observe t (makePayment oor t h) =
           Inr (None, CLOSED, Some (balance s - effective oor th (amount t)),
                Some (balance r + effective oor th (amount t)))"
    by (intro observe_settled)
  moreover note uint_debit [OF assms(6)] uint_credit [of "balance r" "effective oor th (amount t)"]
  moreover have "uint (balance r) + uint (effective oor th (amount t)) < 2 ^ 32 \<longrightarrow>
              uint (balance r + effective oor th (amount t))
                = uint (balance r) + uint (effective oor th (amount t))"
    by (simp add: uint_credit_cases)
  ultimately show ?thesis by blast
qed

text \<open>The run of \<open>main\<close> after selection: 49 moves from an account of 150 to one of 5.\<close>

theorem makePayment_settles_witness:
  "observe (main_transaction\<lparr>transactionHandler := Some CashTransactionHandler\<rparr>)
     (makePayment oor_wide (main_transaction\<lparr>transactionHandler := Some CashTransactionHandler\<rparr>)
        main_store)
     = Inr (None, CLOSED, Some 101, Some 54)
   \<and> state main_transaction = OPEN
   \<and> id_acct gustavo \<noteq> id_acct pedro
   \<and> effective oor_wide CashTransactionHandler 55 = 49
   \<and> uint (balance gustavo - 49) = uint (balance gustavo) - uint (49 :: 32 word)
   \<and> uint (balance pedro + 49) = uint (balance pedro) + uint (49 :: 32 word)"
  using makePayment_settles [of "main_transaction\<lparr>transactionHandler := Some CashTransactionHandler\<rparr>"
      CashTransactionHandler main_store gustavo pedro oor_wide]
  by (simp add: fee_eval main_transaction_def main_store_def gustavo_def pedro_def deref_def
      OPEN_def)

text \<open>
  Claim C1 as stated fails where the recipient's balance overflows: a debit of 10 to an
  account holding \<open>2 ^ 32 - 1\<close> settles and leaves that account with 9, not with
  4294967305.
\<close>

theorem makePayment_settles_counterexample:
  "state (txn 10 0 1 OPEN DEBIT (Some DebitTransactionHandler)) = OPEN
   \<and> id_acct (acct 1 10) \<noteq> id_acct (acct 2 4294967295)
   \<and> effective oor_wide DebitTransactionHandler 10 \<le> balance (acct 1 10)
   \<and> observe (txn 10 0 1 OPEN DEBIT (Some DebitTransactionHandler))
        (makePayment oor_wide (txn 10 0 1 OPEN DEBIT (Some DebitTransactionHandler))
           [0 \<mapsto> acct 1 10, 1 \<mapsto> acct 2 4294967295])
       = Inr (None, CLOSED, Some 0, Some 9)
   \<and> uint (9 :: 32 word)
       \<noteq> uint (balance (acct 2 4294967295)) + uint (effective oor_wide DebitTransactionHandler 10)"
  by (simp add: scenario_eval)

text \<open>
  \<open>makePayment\<close> has no check of the strategy field: whatever the transaction, the
  accounts and the conversion, a call with no strategy bound is a method call on a nil
  interface and panics.
\<close>

lemma makePayment_unbound:
  "transactionHandler t = None \<Longrightarrow> makePayment oor t h = Inl NilDereference"
  by (simp add: makePayment_def)

lemma unknown_method_select:
  "step oor_wide (SelectHandler 0) \<lparr>txns = [txn 55 0 1 OPEN ''X'' None], accts = main_store\<rparr>
     = Inr \<lparr>txns = [txn 55 0 1 OPEN ''X'' None], accts = main_store\<rparr>"
  by (simp add: selectTransactionHandler_def txn_def CREDIT_def CASH_def DEBIT_def)

lemma unknown_method_pay:
  "step oor_wide (MakePayment 0) \<lparr>txns = [txn 55 0 1 OPEN ''X'' None], accts = main_store\<rparr>
     = Inl NilDereference"
  by (simp add: makePayment_def txn_def)

text \<open>
  Claim C3 says that \<open>makePayment\<close> on a transaction with no strategy bound returns a
  "no strategy bound" error value. The code does not return at all there. Take the
  sequence of \<open>main\<close>, selection and then payment, on a transaction whose payment method
  is the unknown \<open>X\<close>: selection returns its error and binds nothing, \<open>main\<close> logs the error
  and goes on, and \<open>makePayment\<close> panics on the nil strategy. So does \<open>makePayment\<close> on
  the transaction of \<open>main\<close> itself when selection has not been called.
\<close>

theorem makePayment_unbound_panics:
  "selectTransactionHandler (txn 55 0 1 OPEN ''X'' None) main_store
     = (Some HandlerNotFound, txn 55 0 1 OPEN ''X'' None, main_store)
   \<and> transactionHandler (txn 55 0 1 OPEN ''X'' None) = None
   \<and> makePayment oor_wide (txn 55 0 1 OPEN ''X'' None) main_store = Inl NilDereference
   \<and> run oor_wide [SelectHandler 0, MakePayment 0]
        \<lparr>txns = [txn 55 0 1 OPEN ''X'' None], accts = main_store\<rparr>
       = Inl NilDereference
   \<and> transactionHandler main_transaction = None
   \<and> makePayment oor_wide main_transaction main_store = Inl NilDereference"
proof -
  have "selectTransactionHandler (txn 55 0 1 OPEN ''X'' None) main_store
     = (Some HandlerNotFound, txn 55 0 1 OPEN ''X'' None, main_store)"
    by (simp add: selectTransactionHandler_def txn_def CREDIT_def CASH_def DEBIT_def)
  moreover have "transactionHandler (txn 55 0 1 OPEN ''X'' None) = None"
    by (simp add: txn_def)
  moreover have "makePayment oor_wide (txn 55 0 1 OPEN ''X'' None) main_store = Inl NilDereference"
    by (simp add: makePayment_def txn_def)
  moreover have "run oor_wide [SelectHandler 0, MakePayment 0]
        \<lparr>txns = [txn 55 0 1 OPEN ''X'' None], accts = main_store\<rparr>
       = Inl NilDereference"
    by (simp only: run.simps unknown_method_select unknown_method_pay sum.case)
  moreover have "transactionHandler main_transaction = None"
    by (simp add: main_transaction_def)
  moreover have "makePayment oor_wide main_transaction main_store = Inl NilDereference"
    by (simp add: makePayment_def main_transaction_def)
  ultimately show ?thesis by blast
qed

text \<open>
  Claim C4. Whenever \<open>makePayment\<close> returns an error, the error is one of the four
  settlement errors, and the transaction (its state with it) and the whole account store
  (both balances with it) are exactly as before the call.
\<close>

theorem makePayment_error_atomic:
  assumes "makePayment oor t h = Inr (Some e, t', h')"
  shows "t' = t \<and> h' = h
         \<and> e \<in> {SelfTransaction, AlreadyClosed, Expired, InsufficientBalance}
         \<and> observe t (makePayment oor t h)
             = Inr (Some e, state t, balance_at h (sender t), balance_at h (recipient t))"
proof -
  from assms obtain th where th: "transactionHandler t = Some th"
    by (auto simp add: makePayment_settle split: option.splits)
  with assms have se: "settle (effective oor th (amount t)) t h = Inr (Some e, t', h')"
    by (simp add: makePayment_bound)
  then have same: "t' = t \<and> h' = h" by (rule settle_error)
  from se have "e \<in> {SelfTransaction, AlreadyClosed, Expired, InsufficientBalance}"
    by (auto simp add: settle_def split: option.splits if_splits)
  with same assms show ?thesis by (simp add: observe_def)
qed

text \<open>The third scenario of the specification: a debit of 55 from a balance of 10.\<close>

theorem makePayment_error_atomic_witness:
  "makePayment oor_wide (txn 55 0 1 OPEN DEBIT (Some DebitTransactionHandler))
       [0 \<mapsto> acct 1 10, 1 \<mapsto> acct 2 5]
     = Inr (Some InsufficientBalance, txn 55 0 1 OPEN DEBIT (Some DebitTransactionHandler),
            [0 \<mapsto> acct 1 10, 1 \<mapsto> acct 2 5])
   \<and> observe (txn 55 0 1 OPEN DEBIT (Some DebitTransactionHandler))
        (makePayment oor_wide (txn 55 0 1 OPEN DEBIT (Some DebitTransactionHandler))
           [0 \<mapsto> acct 1 10, 1 \<mapsto> acct 2 5])
       = Inr (Some InsufficientBalance, OPEN, Some 10, Some 5)"
proof -
  have run: "makePayment oor_wide (txn 55 0 1 OPEN DEBIT (Some DebitTransactionHandler))
       [0 \<mapsto> acct 1 10, 1 \<mapsto> acct 2 5]
     = Inr (Some InsufficientBalance, txn 55 0 1 OPEN DEBIT (Some DebitTransactionHandler),
            [0 \<mapsto> acct 1 10, 1 \<mapsto> acct 2 5])"
    by (simp add: scenario_eval)
  from makePayment_error_atomic [OF run] run show ?thesis
    by (simp add: txn_def acct_def balance_at_def deref_def)
qed

text \<open>The comparison of the fourth check, read in the integers.\<close>

lemma less_cash_amount_iff:
  "b < cash_amount oor a \<longleftrightarrow> int (unat b) < \<lfloor>(of_nat (unat a) :: rat) * (9 / 10)\<rfloor>"
proof -
  have "\<lfloor>(of_nat (unat a) :: rat) * (9 / 10)\<rfloor> = int ((9 * unat a) div 10)"
    using floor_tenths [of "unat a" 9] by simp
  then show ?thesis
    by (simp only: word_less_nat_alt unat_cash_amount of_nat_less_iff)
qed

lemma less_credit_amount_iff:
  assumes "unat a \<le> 3904515723"
  shows "b < credit_amount oor a \<longleftrightarrow> int (unat b) < \<lfloor>(of_nat (unat a) :: rat) * (11 / 10)\<rfloor>"
proof -
  have "\<lfloor>(of_nat (unat a) :: rat) * (11 / 10)\<rfloor> = int ((11 * unat a) div 10)"
    using floor_tenths [of "unat a" 11] by simp
  moreover from assms have "(11 * unat a) div 10 < 2 ^ 32"
    by (simp only: credit_in_range_iff)
  then have "unat (credit_amount oor a) = (11 * unat a) div 10"
    by (rule unat_credit_amount)
  ultimately show ?thesis
    by (simp only: word_less_nat_alt of_nat_less_iff)
qed

text \<open>
  Claim C5, as the code has it. For every strategy and every transaction with its two
  accounts in place, the checks go in the order self-transaction, already closed, expired,
  insufficient balance, and the first that fails decides the error; the accounts are the
  same when their ids are equal, which is what the code compares. The fourth check
  returns InsufficientBalance whenever the sender's balance is less than the requested
  amount for debit, than \<open>floor (amount * 9/10)\<close> for cash, and than
  \<open>floor (amount * 11/10)\<close> for credit with an amount up to 3904515723. For a larger
  credit amount the balance is compared with what the implementation makes of the
  out-of-range conversion to \<open>uint32\<close>, not with \<open>floor (amount * 11/10)\<close>.
\<close>

theorem validation_order:
  assumes "deref h (sender t) = Some s" and "deref h (recipient t) = Some r"
  shows "(id_acct s = id_acct r \<longrightarrow> pay oor th t h = Inr (Some SelfTransaction, t, h))
       \<and> (id_acct s \<noteq> id_acct r \<and> state t = CLOSED \<longrightarrow>
            pay oor th t h = Inr (Some AlreadyClosed, t, h))
       \<and> (id_acct s \<noteq> id_acct r \<and> state t = EXPIRED \<longrightarrow>
            pay oor th t h = Inr (Some Expired, t, h))
       \<and> (id_acct s \<noteq> id_acct r \<and> state t \<noteq> CLOSED \<and> state t \<noteq> EXPIRED
            \<and> unat (balance s) < unat (amount t) \<longrightarrow>
            pay oor DebitTransactionHandler t h = Inr (Some InsufficientBalance, t, h))
       \<and> (id_acct s \<noteq> id_acct r \<and> state t \<noteq> CLOSED \<and> state t \<noteq> EXPIRED
            \<and> int (unat (balance s)) < \<lfloor>(of_nat (unat (amount t)) :: rat) * (9 / 10)\<rfloor> \<longrightarrow>
            pay oor CashTransactionHandler t h = Inr (Some InsufficientBalance, t, h))
       \<and> (id_acct s \<noteq> id_acct r \<and> state t \<noteq> CLOSED \<and> state t \<noteq> EXPIRED
            \<and> unat (amount t) \<le> 3904515723
            \<and> int (unat (balance s)) < \<lfloor>(of_nat (unat (amount t)) :: rat) * (11 / 10)\<rfloor> \<longrightarrow>
            pay oor CreditTransactionHandler t h = Inr (Some InsufficientBalance, t, h))
       \<and> (id_acct s \<noteq> id_acct r \<and> state t \<noteq> CLOSED \<and> state t \<noteq> EXPIRED
            \<and> 3904515723 < unat (amount t)
            \<and> balance s < oor (f64_mul (float64_of_uint32 (amount t)) f64_1_10) \<longrightarrow>
            pay oor CreditTransactionHandler t h = Inr (Some InsufficientBalance, t, h))"
proof -
  note checks = settle_checks [OF assms]
  have first: "id_acct s = id_acct r \<longrightarrow> pay oor th t h = Inr (Some SelfTransaction, t, h)"
    by (simp add: pay_settle checks)
  have second: "id_acct s \<noteq> id_acct r \<and> state t = CLOSED \<longrightarrow>
            pay oor th t h = Inr (Some AlreadyClosed, t, h)"
    by (simp add: pay_settle checks)
  have third: "id_acct s \<noteq> id_acct r \<and> state t = EXPIRED \<longrightarrow>
            pay oor th t h = Inr (Some Expired, t, h)"
    by (simp add: pay_settle checks CLOSED_def EXPIRED_def)
  have fourth: "pay oor th' t h = Inr (Some InsufficientBalance, t, h)"
    if "id_acct s \<noteq> id_acct r" "state t \<noteq> CLOSED" "state t \<noteq> EXPIRED"
      "balance s < effective oor th' (amount t)" for th'
    using that by (simp add: pay_settle checks)
  have debit: "id_acct s \<noteq> id_acct r \<and> state t \<noteq> CLOSED \<and> state t \<noteq> EXPIRED
            \<and> unat (balance s) < unat (amount t) \<longrightarrow>
            pay oor DebitTransactionHandler t h = Inr (Some InsufficientBalance, t, h)"
    using fourth [of DebitTransactionHandler] by (simp add: word_less_nat_alt)
  have cash: "id_acct s \<noteq> id_acct r \<and> state t \<noteq> CLOSED \<and> state t \<noteq> EXPIRED
            \<and> int (unat (balance s)) < \<lfloor>(of_nat (unat (amount t)) :: rat) * (9 / 10)\<rfloor> \<longrightarrow>
            pay oor CashTransactionHandler t h = Inr (Some InsufficientBalance, t, h)"
    using fourth [of CashTransactionHandler]
    by (simp only: effective.simps less_cash_amount_iff) blast
  have credit: "id_acct s \<noteq> id_acct r \<and> state t \<noteq> CLOSED \<and> state t \<noteq> EXPIRED
            \<and> unat (amount t) \<le> 3904515723
            \<and> int (unat (balance s)) < \<lfloor>(of_nat (unat (amount t)) :: rat) * (11 / 10)\<rfloor> \<longrightarrow>
            pay oor CreditTransactionHandler t h = Inr (Some InsufficientBalance, t, h)"
    using fourth [of CreditTransactionHandler] less_credit_amount_iff [of "amount t" "balance s" oor]
    by (simp only: effective.simps) blast
  have beyond: "id_acct s \<noteq> id_acct r \<and> state t \<noteq> CLOSED \<and> state t \<noteq> EXPIRED
            \<and> 3904515723 < unat (amount t)
            \<and> balance s < oor (f64_mul (float64_of_uint32 (amount t)) f64_1_10) \<longrightarrow>
            pay oor CreditTransactionHandler t h = Inr (Some InsufficientBalance, t, h)"
  proof (intro impI, elim conjE)
    assume a: "id_acct s \<noteq> id_acct r" "state t \<noteq> CLOSED" "state t \<noteq> EXPIRED"
      and big: "3904515723 < unat (amount t)"
      and less: "balance s < oor (f64_mul (float64_of_uint32 (amount t)) f64_1_10)"
    from big have "\<not> (11 * unat (amount t)) div 10 < 2 ^ 32"
      by (simp only: credit_in_range_iff not_le)
    then have "2 ^ 32 \<le> (11 * unat (amount t)) div 10"
      by (simp only: not_less)
    then have "credit_amount oor (amount t) = oor (f64_mul (float64_of_uint32 (amount t)) f64_1_10)"
      by (rule credit_amount_out_of_range)
    with less have "balance s < effective oor CreditTransactionHandler (amount t)"
      by (simp only: effective.simps)
    with a show "pay oor CreditTransactionHandler t h = Inr (Some InsufficientBalance, t, h)"
      by (rule fourth)
  qed
  from first second third debit cash credit beyond show ?thesis by blast
qed

theorem validation_order_witness:
  "pay oor_wide CreditTransactionHandler (txn 55 0 0 CLOSED CREDIT None) [0 \<mapsto> acct 1 0]
     = Inr (Some SelfTransaction, txn 55 0 0 CLOSED CREDIT None, [0 \<mapsto> acct 1 0])
   \<and> pay oor_wide CashTransactionHandler (txn 55 0 1 CLOSED CASH None)
        [0 \<mapsto> acct 1 0, 1 \<mapsto> acct 2 5]
     = Inr (Some AlreadyClosed, txn 55 0 1 CLOSED CASH None, [0 \<mapsto> acct 1 0, 1 \<mapsto> acct 2 5])
   \<and> pay oor_wide DebitTransactionHandler (txn 55 0 1 EXPIRED DEBIT None)
        [0 \<mapsto> acct 1 0, 1 \<mapsto> acct 2 5]
     = Inr (Some Expired, txn 55 0 1 EXPIRED DEBIT None, [0 \<mapsto> acct 1 0, 1 \<mapsto> acct 2 5])
   \<and> pay oor_wide DebitTransactionHandler (txn 55 0 1 OPEN DEBIT None)
        [0 \<mapsto> acct 1 10, 1 \<mapsto> acct 2 5]
     = Inr (Some InsufficientBalance, txn 55 0 1 OPEN DEBIT None,
            [0 \<mapsto> acct 1 10, 1 \<mapsto> acct 2 5])
   \<and> pay oor_wide CashTransactionHandler (txn 55 0 1 OPEN CASH None)
        [0 \<mapsto> acct 1 48, 1 \<mapsto> acct 2 5]
     = Inr (Some InsufficientBalance, txn 55 0 1 OPEN CASH None,
            [0 \<mapsto> acct 1 48, 1 \<mapsto> acct 2 5])
   \<and> pay oor_wide CreditTransactionHandler (txn 55 0 1 OPEN CREDIT None)
        [0 \<mapsto> acct 1 59, 1 \<mapsto> acct 2 5]
     = Inr (Some InsufficientBalance, txn 55 0 1 OPEN CREDIT None,
            [0 \<mapsto> acct 1 59, 1 \<mapsto> acct 2 5])
   \<and> pay oor_wide CreditTransactionHandler (txn 4000000000 0 1 OPEN CREDIT None)
        [0 \<mapsto> acct 1 100, 1 \<mapsto> acct 2 5]
     = Inr (Some InsufficientBalance, txn 4000000000 0 1 OPEN CREDIT None,
            [0 \<mapsto> acct 1 100, 1 \<mapsto> acct 2 5])"
proof -
  note ev = deref_def txn_def acct_def OPEN_def CLOSED_def EXPIRED_def
  have self: "pay oor_wide CreditTransactionHandler (txn 55 0 0 CLOSED CREDIT None) [0 \<mapsto> acct 1 0]
     = Inr (Some SelfTransaction, txn 55 0 0 CLOSED CREDIT None, [0 \<mapsto> acct 1 0])"
    using validation_order [of "[0 \<mapsto> acct 1 0]" "txn 55 0 0 CLOSED CREDIT None"
      "acct 1 0" "acct 1 0" oor_wide CreditTransactionHandler]
    by (simp add: ev)
  have closed: "pay oor_wide CashTransactionHandler (txn 55 0 1 CLOSED CASH None)
        [0 \<mapsto> acct 1 0, 1 \<mapsto> acct 2 5]
     = Inr (Some AlreadyClosed, txn 55 0 1 CLOSED CASH None, [0 \<mapsto> acct 1 0, 1 \<mapsto> acct 2 5])"
    using validation_order [of "[0 \<mapsto> acct 1 0, 1 \<mapsto> acct 2 5]" "txn 55 0 1 CLOSED CASH None"
      "acct 1 0" "acct 2 5" oor_wide CashTransactionHandler]
    by (simp add: ev)
  have expired: "pay oor_wide DebitTransactionHandler (txn 55 0 1 EXPIRED DEBIT None)
        [0 \<mapsto> acct 1 0, 1 \<mapsto> acct 2 5]
     = Inr (Some Expired, txn 55 0 1 EXPIRED DEBIT None, [0 \<mapsto> acct 1 0, 1 \<mapsto> acct 2 5])"
    using validation_order [of "[0 \<mapsto> acct 1 0, 1 \<mapsto> acct 2 5]" "txn 55 0 1 EXPIRED DEBIT None"
      "acct 1 0" "acct 2 5" oor_wide DebitTransactionHandler]
    by (simp add: ev)
  have debit: "pay oor_wide DebitTransactionHandler (txn 55 0 1 OPEN DEBIT None)
        [0 \<mapsto> acct 1 10, 1 \<mapsto> acct 2 5]
     = Inr (Some InsufficientBalance, txn 55 0 1 OPEN DEBIT None,
            [0 \<mapsto> acct 1 10, 1 \<mapsto> acct 2 5])"
    using validation_order [of "[0 \<mapsto> acct 1 10, 1 \<mapsto> acct 2 5]" "txn 55 0 1 OPEN DEBIT None"
      "acct 1 10" "acct 2 5" oor_wide DebitTransactionHandler]
    by (simp add: ev)
  have cash: "pay oor_wide CashTransactionHandler (txn 55 0 1 OPEN CASH None)
        [0 \<mapsto> acct 1 48, 1 \<mapsto> acct 2 5]
     = Inr (Some InsufficientBalance, txn 55 0 1 OPEN CASH None,
            [0 \<mapsto> acct 1 48, 1 \<mapsto> acct 2 5])"
    using validation_order [of "[0 \<mapsto> acct 1 48, 1 \<mapsto> acct 2 5]" "txn 55 0 1 OPEN CASH None"
      "acct 1 48" "acct 2 5" oor_wide CashTransactionHandler]
    by (simp add: ev)
  have credit: "pay oor_wide CreditTransactionHandler (txn 55 0 1 OPEN CREDIT None)
        [0 \<mapsto> acct 1 59, 1 \<mapsto> acct 2 5]
     = Inr (Some InsufficientBalance, txn 55 0 1 OPEN CREDIT None,
            [0 \<mapsto> acct 1 59, 1 \<mapsto> acct 2 5])"
    using validation_order [of "[0 \<mapsto> acct 1 59, 1 \<mapsto> acct 2 5]" "txn 55 0 1 OPEN CREDIT None"
      "acct 1 59" "acct 2 5" oor_wide CreditTransactionHandler]
    by (simp add: ev)
  have beyond: "pay oor_wide CreditTransactionHandler (txn 4000000000 0 1 OPEN CREDIT None)
        [0 \<mapsto> acct 1 100, 1 \<mapsto> acct 2 5]
     = Inr (Some InsufficientBalance, txn 4000000000 0 1 OPEN CREDIT None,
            [0 \<mapsto> acct 1 100, 1 \<mapsto> acct 2 5])"
    using validation_order [of "[0 \<mapsto> acct 1 100, 1 \<mapsto> acct 2 5]"
      "txn 4000000000 0 1 OPEN CREDIT None" "acct 1 100" "acct 2 5" oor_wide
      CreditTransactionHandler]
    by (simp add: ev fee_eval)
  from self closed expired debit cash credit beyond show ?thesis by blast
qed

text \<open>
  Claim C5 as stated fails for a credit amount beyond the range: with 3904515724 requested,
  \<open>floor (amount * 1.10)\<close> is \<open>2 ^ 32\<close> and a sender with balance 0 has less, yet on a
  64-bit target the converted amount is 0, the fourth check passes and the payment
  settles.
\<close>

theorem validation_order_counterexample:
  "id_acct (acct 1 0) \<noteq> id_acct (acct 2 5)
   \<and> state (txn 3904515724 0 1 OPEN CREDIT None) \<noteq> CLOSED
   \<and> state (txn 3904515724 0 1 OPEN CREDIT None) \<noteq> EXPIRED
   \<and> \<lfloor>(of_nat (unat (3904515724 :: 32 word)) :: rat) * (11 / 10)\<rfloor> = 4294967296
   \<and> int (unat (balance (acct 1 0)))
       < \<lfloor>(of_nat (unat (3904515724 :: 32 word)) :: rat) * (11 / 10)\<rfloor>
   \<and> observe (txn 3904515724 0 1 OPEN CREDIT None)
        (pay oor_wide CreditTransactionHandler (txn 3904515724 0 1 OPEN CREDIT None)
           [0 \<mapsto> acct 1 0, 1 \<mapsto> acct 2 5])
       = Inr (None, CLOSED, Some 0, Some 5)"
proof -
  have fl: "\<lfloor>(of_nat (unat (3904515724 :: 32 word)) :: rat) * (11 / 10)\<rfloor> = 4294967296"
    using floor_tenths [of "unat (3904515724 :: 32 word)" 11] by simp
  have "int (unat (balance (acct 1 0))) < 4294967296"
    by (simp add: acct_def)
  with fl have less: "int (unat (balance (acct 1 0)))
       < \<lfloor>(of_nat (unat (3904515724 :: 32 word)) :: rat) * (11 / 10)\<rfloor>"
    by (simp only:)
  have "observe (txn 3904515724 0 1 OPEN CREDIT None)
        (pay oor_wide CreditTransactionHandler (txn 3904515724 0 1 OPEN CREDIT None)
           [0 \<mapsto> acct 1 0, 1 \<mapsto> acct 2 5])
       = Inr (None, CLOSED, Some 0, Some 5)"
    by (simp add: scenario_eval fee_eval)
  moreover have "id_acct (acct 1 0) \<noteq> id_acct (acct 2 5)
   \<and> state (txn 3904515724 0 1 OPEN CREDIT None) \<noteq> CLOSED
   \<and> state (txn 3904515724 0 1 OPEN CREDIT None) \<noteq> EXPIRED"
    by (simp add: txn_def acct_def OPEN_def CLOSED_def EXPIRED_def)
  ultimately show ?thesis using fl less by blast
qed

text \<open>
  Claim C7, as the code has it. On a transaction in state CLOSED with a bound strategy and
  its two accounts in place, \<open>makePayment\<close> never settles and changes nothing: it returns
  AlreadyClosed when sender and recipient have different ids, and SelfTransaction when
  they have the same id, since that check comes first. After a successful settlement the
  transaction is CLOSED between accounts of different ids, so a second \<open>makePayment\<close>
  returns AlreadyClosed and leaves transaction and store as the first call left them;
  so does every later call.
\<close>

theorem closed_is_terminal:
  "(transactionHandler t = Some th \<and> state t = CLOSED
      \<and> deref h (sender t) = Some s \<and> deref h (recipient t) = Some r \<longrightarrow>
      makePayment oor t h
        = Inr (Some (if id_acct s = id_acct r then SelfTransaction else AlreadyClosed), t, h))
   \<and> (makePayment oor t h = Inr (None, t', h') \<longrightarrow>
        state t' = CLOSED \<and> makePayment oor t' h' = Inr (Some AlreadyClosed, t', h'))"
proof (intro conjI impI)
  assume "transactionHandler t = Some th \<and> state t = CLOSED
      \<and> deref h (sender t) = Some s \<and> deref h (recipient t) = Some r"
  then show "makePayment oor t h
        = Inr (Some (if id_acct s = id_acct r then SelfTransaction else AlreadyClosed), t, h)"
    by (simp add: makePayment_bound settle_checks)
next
  assume ok: "makePayment oor t h = Inr (None, t', h')"
  then obtain th where th: "transactionHandler t = Some th"
    by (auto simp add: makePayment_settle split: option.splits)
  let ?e = "effective oor th (amount t)"
  from ok th have "settle ?e t h = Inr (None, t', h')"
    by (simp add: makePayment_bound)
  then obtain s r where s: "deref h (sender t) = Some s" and r: "deref h (recipient t) = Some r"
    and ids: "id_acct s \<noteq> id_acct r" and t': "t' = t\<lparr>state := CLOSED\<rparr>"
    and h': "h' = update_balance (update_balance h (sender t) (\<lambda>b. b - ?e))
                  (recipient t) (\<lambda>b. b + ?e)"
    by (rule settle_success)
  from t' show "state t' = CLOSED" by simp
  have s': "deref h' (sender t') = Some (s\<lparr>balance := balance s - ?e\<rparr>)"
    using update_both(1) [OF s r ids] by (simp add: h' t')
  have r': "deref h' (recipient t') = Some (r\<lparr>balance := balance r + ?e\<rparr>)"
    using update_both(2) [OF s r ids] by (simp add: h' t')
  from th t' have th': "transactionHandler t' = Some th" and a': "amount t' = amount t"
    and c': "state t' = CLOSED"
    by simp_all
  have "settle ?e t' h' = Inr (Some AlreadyClosed, t', h')"
    using ids c' by (simp only: settle_checks [OF s' r']) simp
  then show "makePayment oor t' h' = Inr (Some AlreadyClosed, t', h')"
    by (simp only: makePayment_bound [OF th'] a')
qed

theorem closed_is_terminal_witness:
  "makePayment oor_wide (txn 55 0 1 CLOSED DEBIT (Some DebitTransactionHandler))
       [0 \<mapsto> acct 1 150, 1 \<mapsto> acct 2 5]
     = Inr (Some AlreadyClosed, txn 55 0 1 CLOSED DEBIT (Some DebitTransactionHandler),
            [0 \<mapsto> acct 1 150, 1 \<mapsto> acct 2 5])
   \<and> makePayment oor_wide (txn 55 0 1 OPEN DEBIT (Some DebitTransactionHandler))
       [0 \<mapsto> acct 1 150, 1 \<mapsto> acct 2 5]
     = Inr (None, txn 55 0 1 CLOSED DEBIT (Some DebitTransactionHandler),
            [0 \<mapsto> acct 1 95, 1 \<mapsto> acct 2 60])
   \<and> makePayment oor_wide (txn 55 0 1 CLOSED DEBIT (Some DebitTransactionHandler))
       [0 \<mapsto> acct 1 95, 1 \<mapsto> acct 2 60]
     = Inr (Some AlreadyClosed, txn 55 0 1 CLOSED DEBIT (Some DebitTransactionHandler),
            [0 \<mapsto> acct 1 95, 1 \<mapsto> acct 2 60])"
proof -
  have first: "makePayment oor_wide (txn 55 0 1 OPEN DEBIT (Some DebitTransactionHandler))
       [0 \<mapsto> acct 1 150, 1 \<mapsto> acct 2 5]
     = Inr (None, txn 55 0 1 CLOSED DEBIT (Some DebitTransactionHandler),
            [0 \<mapsto> acct 1 95, 1 \<mapsto> acct 2 60])"
    by (simp add: scenario_eval)
  from closed_is_terminal [of "txn 55 0 1 OPEN DEBIT (Some DebitTransactionHandler)"
      DebitTransactionHandler "[0 \<mapsto> acct 1 150, 1 \<mapsto> acct 2 5]" "acct 1 150" "acct 2 5"
      oor_wide "txn 55 0 1 CLOSED DEBIT (Some DebitTransactionHandler)"
      "[0 \<mapsto> acct 1 95, 1 \<mapsto> acct 2 60]"]
    first
  have second: "makePayment oor_wide (txn 55 0 1 CLOSED DEBIT (Some DebitTransactionHandler))
       [0 \<mapsto> acct 1 95, 1 \<mapsto> acct 2 60]
     = Inr (Some AlreadyClosed, txn 55 0 1 CLOSED DEBIT (Some DebitTransactionHandler),
            [0 \<mapsto> acct 1 95, 1 \<mapsto> acct 2 60])"
    by blast
  from closed_is_terminal [of "txn 55 0 1 CLOSED DEBIT (Some DebitTransactionHandler)"
      DebitTransactionHandler "[0 \<mapsto> acct 1 150, 1 \<mapsto> acct 2 5]" "acct 1 150" "acct 2 5"
      oor_wide]
  have third: "makePayment oor_wide (txn 55 0 1 CLOSED DEBIT (Some DebitTransactionHandler))
       [0 \<mapsto> acct 1 150, 1 \<mapsto> acct 2 5]
     = Inr (Some AlreadyClosed, txn 55 0 1 CLOSED DEBIT (Some DebitTransactionHandler),
            [0 \<mapsto> acct 1 150, 1 \<mapsto> acct 2 5])"
    by (simp add: txn_def acct_def deref_def)
  from first second third show ?thesis by blast
qed

text \<open>
  Claim C7 as stated fails on a CLOSED transaction from an account to itself: the error
  is SelfTransaction, not AlreadyClosed.
\<close>

theorem closed_is_terminal_counterexample:
  "state (txn 55 0 0 CLOSED DEBIT (Some DebitTransactionHandler)) = CLOSED
   \<and> transactionHandler (txn 55 0 0 CLOSED DEBIT (Some DebitTransactionHandler))
       = Some DebitTransactionHandler
   \<and> observe (txn 55 0 0 CLOSED DEBIT (Some DebitTransactionHandler))
        (makePayment oor_wide (txn 55 0 0 CLOSED DEBIT (Some DebitTransactionHandler))
           [0 \<mapsto> acct 1 150])
       = Inr (Some SelfTransaction, CLOSED, Some 150, Some 150)
   \<and> SelfTransaction \<noteq> AlreadyClosed"
  by (simp add: scenario_eval)

lemma mod_minus_modulus: "(x - 2 ^ 32) mod 2 ^ 32 = x mod (2 ^ 32 :: int)"
  using mod_diff_right_eq [of x "2 ^ 32" "2 ^ 32"] by simp

text \<open>The sum of the two balances after the debit and the credit, in the integers.\<close>

lemma uint_sum_after:
  fixes bs br e :: "32 word"
  assumes "e \<le> bs"
  shows "uint (bs - e) + uint (br + e) =
     (if uint br + uint e < 2 ^ 32 then uint bs + uint br else uint bs + uint br - 2 ^ 32)"
  by (simp add: uint_debit [OF assms] uint_credit_cases)

text \<open>
  Claim C8, as the code has it. After every successful settlement the sum of the sender's
  and the recipient's balances equals the sum before modulo \<open>2 ^ 32\<close>. The two sums are
  equal when the recipient's balance plus the effective amount is below \<open>2 ^ 32\<close>;
  otherwise the sum after is \<open>2 ^ 32\<close> less than the sum before.
\<close>

theorem conservation:
  assumes th: "transactionHandler t = Some th"
    and ok: "makePayment oor t h = Inr (None, t', h')"
    and bs: "balance_at h (sender t) = Some bs"
    and br: "balance_at h (recipient t) = Some br"
  shows "balance_at h' (sender t) = Some (bs - effective oor th (amount t))
       \<and> balance_at h' (recipient t) = Some (br + effective oor th (amount t))
       \<and> (uint (bs - effective oor th (amount t)) + uint (br + effective oor th (amount t)))
             mod 2 ^ 32
           = (uint bs + uint br) mod 2 ^ 32
       \<and> (uint br + uint (effective oor th (amount t)) < 2 ^ 32 \<longrightarrow>
            uint (bs - effective oor th (amount t)) + uint (br + effective oor th (amount t))
              = uint bs + uint br)
       \<and> (2 ^ 32 \<le> uint br + uint (effective oor th (amount t)) \<longrightarrow>
            uint (bs - effective oor th (amount t)) + uint (br + effective oor th (amount t))
              = uint bs + uint br - 2 ^ 32)"
proof -
  let ?e = "effective oor th (amount t)"
  from ok th have "settle ?e t h = Inr (None, t', h')"
    by (simp add: makePayment_bound)
  then obtain s r where s: "deref h (sender t) = Some s" and r: "deref h (recipient t) = Some r"
    and ids: "id_acct s \<noteq> id_acct r" and enough: "?e \<le> balance s"
    and h': "h' = update_balance (update_balance h (sender t) (\<lambda>b. b - ?e))
                  (recipient t) (\<lambda>b. b + ?e)"
    by (rule settle_success)
  from s bs have bs': "balance s = bs" by (simp add: balance_at_def)
  from r br have br': "balance r = br" by (simp add: balance_at_def)
  have after_s: "balance_at h' (sender t) = Some (bs - ?e)"
    using update_both(1) [OF s r ids] by (simp add: h' balance_at_def bs')
  have after_r: "balance_at h' (recipient t) = Some (br + ?e)"
    using update_both(2) [OF s r ids] by (simp add: h' balance_at_def br')
  from enough bs' have le: "?e \<le> bs" by simp
  note sum = uint_sum_after [OF le, of br]
  have modulo: "(uint (bs - ?e) + uint (br + ?e)) mod 2 ^ 32 = (uint bs + uint br) mod 2 ^ 32"
    by (simp only: sum mod_minus_modulus if_distrib [of "\<lambda>x. x mod 2 ^ 32"] if_cancel)
  have exact: "uint br + uint ?e < 2 ^ 32 \<longrightarrow>
      uint (bs - ?e) + uint (br + ?e) = uint bs + uint br"
    by (simp only: sum) simp
  have wrapped: "2 ^ 32 \<le> uint br + uint ?e \<longrightarrow>
      uint (bs - ?e) + uint (br + ?e) = uint bs + uint br - 2 ^ 32"
    by (simp only: sum) simp
  from after_s after_r modulo exact wrapped show ?thesis by blast
qed

theorem conservation_witness:
  "makePayment oor_wide (txn 55 0 1 OPEN CREDIT (Some CreditTransactionHandler))
       [0 \<mapsto> acct 1 150, 1 \<mapsto> acct 2 5]
     = Inr (None, txn 55 0 1 CLOSED CREDIT (Some CreditTransactionHandler),
            [0 \<mapsto> acct 1 90, 1 \<mapsto> acct 2 65])
   \<and> balance_at [0 \<mapsto> acct 1 90, 1 \<mapsto> acct 2 65] (Some 0) = Some 90
   \<and> balance_at [0 \<mapsto> acct 1 90, 1 \<mapsto> acct 2 65] (Some 1) = Some 65
   \<and> uint (90 :: 32 word) + uint (65 :: 32 word) = uint (150 :: 32 word) + uint (5 :: 32 word)"
proof -
  have ok: "makePayment oor_wide (txn 55 0 1 OPEN CREDIT (Some CreditTransactionHandler))
       [0 \<mapsto> acct 1 150, 1 \<mapsto> acct 2 5]
     = Inr (None, txn 55 0 1 CLOSED CREDIT (Some CreditTransactionHandler),
            [0 \<mapsto> acct 1 90, 1 \<mapsto> acct 2 65])"
    by (simp add: scenario_eval fee_eval)
  have th: "transactionHandler (txn 55 0 1 OPEN CREDIT (Some CreditTransactionHandler))
      = Some CreditTransactionHandler"
    by (simp add: txn_def)
  have bs: "balance_at [0 \<mapsto> acct 1 150, 1 \<mapsto> acct 2 5]
      (sender (txn 55 0 1 OPEN CREDIT (Some CreditTransactionHandler))) = Some 150"
    by (simp add: scenario_eval)
  have br: "balance_at [0 \<mapsto> acct 1 150, 1 \<mapsto> acct 2 5]
      (recipient (txn 55 0 1 OPEN CREDIT (Some CreditTransactionHandler))) = Some 5"
    by (simp add: scenario_eval)
  from conservation [OF th ok bs br] ok show ?thesis
    by (simp add: txn_def fee_eval)
qed

text \<open>
  Claim C8 as stated fails where the recipient's balance overflows: a cash payment of 55
  (49 moved) from an account of 150 to one of 4294967290 settles and leaves 101 and 43.
\<close>

theorem conservation_counterexample:
  "observe (txn 55 0 1 OPEN CASH (Some CashTransactionHandler))
        (makePayment oor_wide (txn 55 0 1 OPEN CASH (Some CashTransactionHandler))
           [0 \<mapsto> acct 1 150, 1 \<mapsto> acct 2 4294967290])
       = Inr (None, CLOSED, Some 101, Some 43)
   \<and> id_acct (acct 1 150) \<noteq> id_acct (acct 2 4294967290)
   \<and> uint (101 :: 32 word) + uint (43 :: 32 word)
       \<noteq> uint (balance (acct 1 150)) + uint (balance (acct 2 4294967290))"
  by (simp add: scenario_eval fee_eval)

text \<open>
  Claim C10. Balances are 32-bit words and the credit to the recipient is a plain word
  addition. Where a settlement passes the four checks and the recipient's balance plus
  the effective amount is \<open>2 ^ 32\<close> or more, no check rejects it: \<open>makePayment\<close> returns no
  error, the recipient's stored balance is the sum less \<open>2 ^ 32\<close>, which is lower than it
  was, and the sum of the two balances is \<open>2 ^ 32\<close> lower than before, hence conserved
  modulo \<open>2 ^ 32\<close> only.
\<close>

theorem recipient_credit_wraps:
  assumes th: "transactionHandler t = Some th"
    and s: "deref h (sender t) = Some s" and r: "deref h (recipient t) = Some r"
    and ids: "id_acct s \<noteq> id_acct r"
    and st: "state t \<noteq> CLOSED" "state t \<noteq> EXPIRED"
    and enough: "effective oor th (amount t) \<le> balance s"
    and over: "2 ^ 32 \<le> uint (balance r) + uint (effective oor th (amount t))"
  shows "observe t (makePayment oor t h) =
           Inr (None, CLOSED, Some (balance s - effective oor th (amount t)),
                Some (balance r + effective oor th (amount t)))
       \<and> uint (balance r + effective oor th (amount t))
           = uint (balance r) + uint (effective oor th (amount t)) - 2 ^ 32
       \<and> balance r + effective oor th (amount t) < balance r
       \<and> uint (balance s - effective oor th (amount t))
             + uint (balance r + effective oor th (amount t))
           = uint (balance s) + uint (balance r) - 2 ^ 32
       \<and> (uint (balance s - effective oor th (amount t))
             + uint (balance r + effective oor th (amount t))) mod 2 ^ 32
           = (uint (balance s) + uint (balance r)) mod 2 ^ 32"
proof -
  let ?e = "effective oor th (amount t)"
  have obs: "observe t (makePayment oor t h) =
           Inr (None, CLOSED, Some (balance s - ?e), Some (balance r + ?e))"
    using assms(1-7) by (rule observe_settled)
  from over have credit: "uint (balance r + ?e) = uint (balance r) + uint ?e - 2 ^ 32"
    by (simp add: uint_credit_cases)
  have "uint ?e < 2 ^ 32" using uint_bounded [of ?e] by simp
  with credit have "uint (balance r + ?e) < uint (balance r)" by simp
  then have lower: "balance r + ?e < balance r" by (simp add: word_less_def)
  from over have sum: "uint (balance s - ?e) + uint (balance r + ?e)
      = uint (balance s) + uint (balance r) - 2 ^ 32"
    by (simp add: uint_sum_after [OF enough])
  have "(uint (balance s - ?e) + uint (balance r + ?e)) mod 2 ^ 32
      = (uint (balance s) + uint (balance r)) mod 2 ^ 32"
    by (simp only: sum mod_minus_modulus)
  with obs credit lower sum show ?thesis by blast
qed

theorem recipient_credit_wraps_witness:
  "observe (txn 10 0 1 OPEN CREDIT (Some CreditTransactionHandler))
        (makePayment oor_wide (txn 10 0 1 OPEN CREDIT (Some CreditTransactionHandler))
           [0 \<mapsto> acct 1 20, 1 \<mapsto> acct 2 4294967290])
       = Inr (None, CLOSED, Some 9, Some 5)
   \<and> effective oor_wide CreditTransactionHandler 10 = 11
   \<and> (2 :: int) ^ 32 \<le> uint (balance (acct 2 4294967290)) + uint (11 :: 32 word)
   \<and> (5 :: 32 word) < balance (acct 2 4294967290)
   \<and> uint (9 :: 32 word) + uint (5 :: 32 word)
       = uint (balance (acct 1 20)) + uint (balance (acct 2 4294967290)) - 2 ^ 32"
  using recipient_credit_wraps [of "txn 10 0 1 OPEN CREDIT (Some CreditTransactionHandler)"
      CreditTransactionHandler "[0 \<mapsto> acct 1 20, 1 \<mapsto> acct 2 4294967290]"
      "acct 1 20" "acct 2 4294967290" oor_wide]
  by (simp add: fee_eval txn_def acct_def deref_def OPEN_def CLOSED_def EXPIRED_def)

section \<open>Handler selection\<close>

lemma methods_distinct: "CREDIT \<noteq> CASH" "CREDIT \<noteq> DEBIT" "CASH \<noteq> DEBIT"
  by (simp_all add: CREDIT_def CASH_def DEBIT_def)

lemma select_credit:
  "paymentMethod t = CREDIT \<Longrightarrow>
     selectTransactionHandler t h
       = (None, t\<lparr>transactionHandler := Some CreditTransactionHandler\<rparr>, h)"
  by (simp add: selectTransactionHandler_def)

lemma select_cash:
  "paymentMethod t = CASH \<Longrightarrow>
     selectTransactionHandler t h
       = (None, t\<lparr>transactionHandler := Some CashTransactionHandler\<rparr>, h)"
  using methods_distinct by (simp add: selectTransactionHandler_def)

lemma select_debit:
  "paymentMethod t = DEBIT \<Longrightarrow>
     selectTransactionHandler t h
       = (None, t\<lparr>transactionHandler := Some DebitTransactionHandler\<rparr>, h)"
  using methods_distinct by (simp add: selectTransactionHandler_def)

lemma select_other:
  "paymentMethod t \<notin> {CREDIT, DEBIT, CASH} \<Longrightarrow>
     selectTransactionHandler t h = (Some HandlerNotFound, t, h)"
  by (simp add: selectTransactionHandler_def)

text \<open>
  A selection returns the store as it was and a transaction that differs in its strategy
  field at most, and selecting again changes nothing more.
\<close>

lemma select_frame:
  assumes sel: "selectTransactionHandler t h = (err, t', h')"
  shows "h' = h \<and> t' = t\<lparr>transactionHandler := transactionHandler t'\<rparr>
       \<and> selectTransactionHandler t' h' = (err, t', h')"
proof -
  consider (credit) "paymentMethod t = CREDIT" | (cash) "paymentMethod t = CASH"
    | (debit) "paymentMethod t = DEBIT" | (other) "paymentMethod t \<notin> {CREDIT, DEBIT, CASH}"
    by blast
  then show ?thesis
  proof cases
    case credit
    from sel select_credit [OF credit, of h]
    have e: "err = None" "t' = t\<lparr>transactionHandler := Some CreditTransactionHandler\<rparr>" "h' = h"
      by simp_all
    from credit e have "paymentMethod t' = CREDIT" by simp
    from select_credit [OF this, of h'] show ?thesis by (simp add: e)
  next
    case cash
    from sel select_cash [OF cash, of h]
    have e: "err = None" "t' = t\<lparr>transactionHandler := Some CashTransactionHandler\<rparr>" "h' = h"
      by simp_all
    from cash e have "paymentMethod t' = CASH" by simp
    from select_cash [OF this, of h'] show ?thesis by (simp add: e)
  next
    case debit
    from sel select_debit [OF debit, of h]
    have e: "err = None" "t' = t\<lparr>transactionHandler := Some DebitTransactionHandler\<rparr>" "h' = h"
      by simp_all
    from debit e have "paymentMethod t' = DEBIT" by simp
    from select_debit [OF this, of h'] show ?thesis by (simp add: e)
  next
    case other
    from sel select_other [OF other, of h]
    have e: "err = Some HandlerNotFound" "t' = t" "h' = h"
      by simp_all
    from select_other [OF other, of h] show ?thesis by (simp add: e)
  qed
qed

text \<open>
  Claim C6. Selection binds the strategy of the payment method and returns no error for
  CREDIT, CASH and DEBIT. For every other payment method it returns the error "no handler"
  and the transaction as it was, so a strategy field that was unset stays unset. In all
  cases the store is returned as it was and the transaction differs from the one before
  in its strategy field at most (amount, state, payment method and the balances of both
  accounts are the same); a second selection gives the same result as the first.
\<close>

theorem handler_selection:
  "(paymentMethod t = CREDIT \<longrightarrow>
      selectTransactionHandler t h
        = (None, t\<lparr>transactionHandler := Some CreditTransactionHandler\<rparr>, h))
   \<and> (paymentMethod t = CASH \<longrightarrow>
      selectTransactionHandler t h
        = (None, t\<lparr>transactionHandler := Some CashTransactionHandler\<rparr>, h))
   \<and> (paymentMethod t = DEBIT \<longrightarrow>
      selectTransactionHandler t h
        = (None, t\<lparr>transactionHandler := Some DebitTransactionHandler\<rparr>, h))
   \<and> (paymentMethod t \<notin> {CREDIT, DEBIT, CASH} \<longrightarrow>
      selectTransactionHandler t h = (Some HandlerNotFound, t, h))
   \<and> (selectTransactionHandler t h = (err, t', h') \<longrightarrow>
        h' = h
        \<and> t' = t\<lparr>transactionHandler := transactionHandler t'\<rparr>
        \<and> amount t' = amount t \<and> state t' = state t \<and> paymentMethod t' = paymentMethod t
        \<and> balance_at h' (sender t') = balance_at h (sender t)
        \<and> balance_at h' (recipient t') = balance_at h (recipient t)
        \<and> selectTransactionHandler t' h' = (err, t', h'))"
proof (intro conjI impI)
  assume sel: "selectTransactionHandler t h = (err, t', h')"
  note frame = select_frame [OF sel]
  from frame show "h' = h" by blast
  from frame show upd: "t' = t\<lparr>transactionHandler := transactionHandler t'\<rparr>" by blast
  from frame show "selectTransactionHandler t' h' = (err, t', h')" by blast
  have fields: "amount t' = amount t \<and> state t' = state t \<and> paymentMethod t' = paymentMethod t
      \<and> sender t' = sender t \<and> recipient t' = recipient t"
    by (subst (1 2 3 4 5) upd) simp
  from fields show "amount t' = amount t" by blast
  from fields show "state t' = state t" by blast
  from fields show "paymentMethod t' = paymentMethod t" by blast
  from fields frame show "balance_at h' (sender t') = balance_at h (sender t)" by simp
  from fields frame show "balance_at h' (recipient t') = balance_at h (recipient t)" by simp
qed (simp_all add: select_credit select_cash select_debit select_other)

theorem handler_selection_witness:
  "selectTransactionHandler main_transaction main_store
     = (None, main_transaction\<lparr>transactionHandler := Some CashTransactionHandler\<rparr>, main_store)
   \<and> selectTransactionHandler (txn 55 0 1 OPEN CREDIT None) main_store
     = (None, txn 55 0 1 OPEN CREDIT (Some CreditTransactionHandler), main_store)
   \<and> selectTransactionHandler (txn 55 0 1 OPEN DEBIT None) main_store
     = (None, txn 55 0 1 OPEN DEBIT (Some DebitTransactionHandler), main_store)
   \<and> selectTransactionHandler (txn 55 0 1 OPEN ''X'' None) main_store
     = (Some HandlerNotFound, txn 55 0 1 OPEN ''X'' None, main_store)
   \<and> transactionHandler (txn 55 0 1 OPEN ''X'' None) = None
   \<and> selectTransactionHandler
        (main_transaction\<lparr>transactionHandler := Some CashTransactionHandler\<rparr>) main_store
     = (None, main_transaction\<lparr>transactionHandler := Some CashTransactionHandler\<rparr>, main_store)"
proof -
  have cash: "paymentMethod main_transaction = CASH"
    by (simp add: main_transaction_def)
  have credit: "paymentMethod (txn 55 0 1 OPEN CREDIT None) = CREDIT"
    and debit: "paymentMethod (txn 55 0 1 OPEN DEBIT None) = DEBIT"
    and other: "paymentMethod (txn 55 0 1 OPEN ''X'' None) \<notin> {CREDIT, DEBIT, CASH}"
    and unset: "transactionHandler (txn 55 0 1 OPEN ''X'' None) = None"
    by (simp_all add: txn_def CREDIT_def DEBIT_def CASH_def)
  from cash handler_selection [of main_transaction main_store]
  have one: "selectTransactionHandler main_transaction main_store
     = (None, main_transaction\<lparr>transactionHandler := Some CashTransactionHandler\<rparr>, main_store)"
    by blast
  from one handler_selection [of main_transaction main_store None
      "main_transaction\<lparr>transactionHandler := Some CashTransactionHandler\<rparr>" main_store]
  have again: "selectTransactionHandler
        (main_transaction\<lparr>transactionHandler := Some CashTransactionHandler\<rparr>) main_store
     = (None, main_transaction\<lparr>transactionHandler := Some CashTransactionHandler\<rparr>, main_store)"
    by blast
  from credit handler_selection [of "txn 55 0 1 OPEN CREDIT None" main_store]
  have two: "selectTransactionHandler (txn 55 0 1 OPEN CREDIT None) main_store
     = (None, txn 55 0 1 OPEN CREDIT (Some CreditTransactionHandler), main_store)"
    by (simp add: txn_def)
  from debit handler_selection [of "txn 55 0 1 OPEN DEBIT None" main_store]
  have three: "selectTransactionHandler (txn 55 0 1 OPEN DEBIT None) main_store
     = (None, txn 55 0 1 OPEN DEBIT (Some DebitTransactionHandler), main_store)"
    by (simp add: txn_def)
  from other handler_selection [of "txn 55 0 1 OPEN ''X'' None" main_store]
  have four: "selectTransactionHandler (txn 55 0 1 OPEN ''X'' None) main_store
     = (Some HandlerNotFound, txn 55 0 1 OPEN ''X'' None, main_store)"
    by blast
  from one two three four unset again show ?thesis by blast
qed

section \<open>Runs of selections and payments\<close>

lemma makePayment_dom:
  assumes "makePayment oor t h = Inr (err, t', h')"
  shows "dom h' = dom h"
proof -
  from assms obtain th where th: "transactionHandler t = Some th"
    by (auto simp add: makePayment_settle split: option.splits)
  let ?e = "effective oor th (amount t)"
  from assms th have se: "settle ?e t h = Inr (err, t', h')"
    by (simp add: makePayment_bound)
  show ?thesis
  proof (cases err)
    case None
    with se have "settle ?e t h = Inr (None, t', h')" by simp
    then obtain s r where s: "deref h (sender t) = Some s" and r: "deref h (recipient t) = Some r"
      and ids: "id_acct s \<noteq> id_acct r"
      and h': "h' = update_balance (update_balance h (sender t) (\<lambda>b. b - ?e))
                  (recipient t) (\<lambda>b. b + ?e)"
      by (rule settle_success)
    from update_both(4) [OF s r ids] h' show ?thesis by simp
  next
    case (Some x)
    with se have "settle ?e t h = Inr (Some x, t', h')" by simp
    then have "t' = t \<and> h' = h" by (rule settle_error)
    then show ?thesis by simp
  qed
qed

lemma step_dom: "step oor x l = Inr l' \<Longrightarrow> dom (accts l') = dom (accts l)"
proof (cases x)
  case (SelectHandler k)
  assume "step oor x l = Inr l'"
  with SelectHandler show ?thesis
    by (auto simp add: selectTransactionHandler_def split: if_splits)
next
  case (MakePayment k)
  assume "step oor x l = Inr l'"
  with MakePayment obtain err t' h' where
    "makePayment oor (txns l ! k) (accts l) = Inr (err, t', h')" and "accts l' = h'"
    by (auto split: if_splits sum.splits)
  then show ?thesis by (simp add: makePayment_dom)
qed

lemma run_dom: "run oor xs l = Inr l' \<Longrightarrow> dom (accts l') = dom (accts l)"
proof (induction xs arbitrary: l)
  case Nil
  then show ?case by simp
next
  case (Cons x xs)
  then obtain l1 where l1: "step oor x l = Inr l1" and rest: "run oor xs l1 = Inr l'"
    by (auto split: sum.splits)
  from Cons.IH [OF rest] step_dom [OF l1] show ?case by simp
qed

text \<open>Every payment that settles debits the sender exactly: the check came first.\<close>

lemma debit_exact_always: "debit_exact oor t h"
proof (cases "makePayment oor t h")
  case (Inl p)
  then show ?thesis by (simp add: debit_exact_def)
next
  case (Inr res)
  obtain err t' h' where res: "res = (err, t', h')" by (cases res)
  show ?thesis
  proof (cases err)
    case (Some x)
    with Inr res show ?thesis by (simp add: debit_exact_def)
  next
    case None
    with Inr res have ok: "makePayment oor t h = Inr (None, t', h')" by simp
    then obtain th where th: "transactionHandler t = Some th"
      by (auto simp add: makePayment_settle split: option.splits)
    let ?e = "effective oor th (amount t)"
    from ok th have "settle ?e t h = Inr (None, t', h')"
      by (simp add: makePayment_bound)
    then obtain s r where s: "deref h (sender t) = Some s" and r: "deref h (recipient t) = Some r"
      and ids: "id_acct s \<noteq> id_acct r" and enough: "?e \<le> balance s"
      and h': "h' = update_balance (update_balance h (sender t) (\<lambda>b. b - ?e))
                  (recipient t) (\<lambda>b. b + ?e)"
      by (rule settle_success)
    have "balance_at h (sender t) = Some (balance s)"
      using s by (simp add: balance_at_def)
    moreover have "balance_at h' (sender t) = Some (balance s - ?e)"
      using update_both(1) [OF s r ids] by (simp add: h' balance_at_def)
    ultimately show ?thesis
      using ok th uint_debit [OF enough] by (simp add: debit_exact_def)
  qed
qed

lemma debits_exact_always: "debits_exact oor xs l"
  by (induction xs arbitrary: l) (auto simp add: debit_exact_always split: operation.splits sum.splits)

text \<open>
  Claim C9. In every run of handler selections and payments every debit is exact in the
  integers (the sender's balance is at least the amount taken from it, so no subtraction
  wraps below zero), and every account of the store is still there at the end of the run
  with a balance that is a non-negative integer below \<open>2 ^ 32\<close>.
\<close>

theorem balance_never_negative:
  assumes "run oor xs l = Inr l'" and "accts l a = Some acc"
  shows "debits_exact oor xs l
       \<and> (\<exists>acc'. accts l' a = Some acc' \<and> 0 \<le> uint (balance acc')
            \<and> uint (balance acc') < 2 ^ 32)"
proof -
  from assms(2) have "a \<in> dom (accts l)" by auto
  with run_dom [OF assms(1)] have "a \<in> dom (accts l')" by simp
  then obtain acc' where "accts l' a = Some acc'" by auto
  moreover have "uint (balance acc') < 2 ^ 32"
    using uint_bounded [of "balance acc'"] by simp
  ultimately show ?thesis
    using debits_exact_always [of oor xs l] by simp
qed

lemma main_step_select: "step oor_wide (SelectHandler 0) \<lparr>txns = [main_transaction], accts = main_store\<rparr>
  = Inr \<lparr>txns = [txn 55 0 1 OPEN CASH (Some CashTransactionHandler)], accts = main_store\<rparr>"
  by (simp add: selectTransactionHandler_def main_transaction_def txn_def CREDIT_def CASH_def)

lemma main_step_pay: "step oor_wide (MakePayment 0)
     \<lparr>txns = [txn 55 0 1 OPEN CASH (Some CashTransactionHandler)], accts = main_store\<rparr>
  = Inr \<lparr>txns = [txn 55 0 1 CLOSED CASH (Some CashTransactionHandler)],
            accts = [0 \<mapsto> gustavo\<lparr>balance := 101\<rparr>, 1 \<mapsto> pedro\<lparr>balance := 54\<rparr>]\<rparr>"
  by (simp add: scenario_eval fee_eval)

lemma main_step_pay_again: "step oor_wide (MakePayment 0)
     \<lparr>txns = [txn 55 0 1 CLOSED CASH (Some CashTransactionHandler)],
      accts = [0 \<mapsto> gustavo\<lparr>balance := 101\<rparr>, 1 \<mapsto> pedro\<lparr>balance := 54\<rparr>]\<rparr>
  = Inr \<lparr>txns = [txn 55 0 1 CLOSED CASH (Some CashTransactionHandler)],
            accts = [0 \<mapsto> gustavo\<lparr>balance := 101\<rparr>, 1 \<mapsto> pedro\<lparr>balance := 54\<rparr>]\<rparr>"
  by (simp add: scenario_eval fee_eval)

text \<open>The run of \<open>main\<close>, with a second payment attempt added.\<close>

theorem balance_never_negative_witness:
  "run oor_wide [SelectHandler 0, MakePayment 0, MakePayment 0]
       \<lparr>txns = [main_transaction], accts = main_store\<rparr>
     = Inr \<lparr>txns = [txn 55 0 1 CLOSED CASH (Some CashTransactionHandler)],
            accts = [0 \<mapsto> gustavo\<lparr>balance := 101\<rparr>, 1 \<mapsto> pedro\<lparr>balance := 54\<rparr>]\<rparr>
   \<and> main_store 0 = Some gustavo
   \<and> debits_exact oor_wide [SelectHandler 0, MakePayment 0, MakePayment 0]
       \<lparr>txns = [main_transaction], accts = main_store\<rparr>
   \<and> (0 :: int) \<le> uint (balance (gustavo\<lparr>balance := 101\<rparr>))"
proof -
  have r: "run oor_wide [SelectHandler 0, MakePayment 0, MakePayment 0]
       \<lparr>txns = [main_transaction], accts = main_store\<rparr>
     = Inr \<lparr>txns = [txn 55 0 1 CLOSED CASH (Some CashTransactionHandler)],
            accts = [0 \<mapsto> gustavo\<lparr>balance := 101\<rparr>, 1 \<mapsto> pedro\<lparr>balance := 54\<rparr>]\<rparr>"
    by (simp only: run.simps main_step_select main_step_pay main_step_pay_again sum.case)
  have a: "accts \<lparr>txns = [main_transaction], accts = main_store\<rparr> 0 = Some gustavo"
    by (simp add: main_store_def)
  from balance_never_negative [OF r a] r a show ?thesis
    by simp
qed

end
